theory Spec2Isabelle
  imports Complex_Main
begin

section \<open>Money arithmetic\<close>

text \<open>
  The backend keeps amounts in \<^verbatim>\<open>float64\<close> and rounds them to two decimals with
  \<^verbatim>\<open>math.Round(x*RoundingFactor) / RoundingFactor\<close>.  Amounts are modelled here as exact
  rationals: every constant of \<^verbatim>\<open>services/constants.go\<close> and every decimal literal of the
  tests is a rational, and the rounding, comparison and threshold logic is kept as written.
  Binary representation error, NaN and infinities of \<^verbatim>\<open>float64\<close> are outside the model.
\<close>

definition BalanceThreshold :: rat where
  "BalanceThreshold = 1 / 100"

definition AmountTolerance :: rat where
  "AmountTolerance = 1 / 1000"

definition RoundingFactor :: rat where
  "RoundingFactor = 100"

text \<open>Go's \<^verbatim>\<open>math.Round\<close>: nearest integer, halves away from zero.\<close>

definition math_Round :: "rat \<Rightarrow> rat" where
  "math_Round x = (if x < 0 then - of_int \<lfloor>- x + 1 / 2\<rfloor> else of_int \<lfloor>x + 1 / 2\<rfloor>)"

text \<open>The recurring expression \<^verbatim>\<open>math.Round(x*RoundingFactor) / RoundingFactor\<close>.\<close>

definition round2 :: "rat \<Rightarrow> rat" where
  "round2 x = math_Round (x * RoundingFactor) / RoundingFactor"

section \<open>Settlement service: the balance heaps\<close>

record personBalance =
  userID :: string
  balance :: rat

type_synonym balanceHeap = "personBalance list"

record Settlement =
  FromUserID :: string
  ToUserID :: string
  Amount :: rat
  Currency :: string

text \<open>The \<^verbatim>\<open>heap.Interface\<close> methods of \<^verbatim>\<open>balanceHeap\<close>: a max-heap on the balance.\<close>

definition Less :: "balanceHeap \<Rightarrow> nat \<Rightarrow> nat \<Rightarrow> bool" where
  "Less h i j = (balance (h ! i) > balance (h ! j))"

definition Swap :: "balanceHeap \<Rightarrow> nat \<Rightarrow> nat \<Rightarrow> balanceHeap" where
  "Swap h i j = h[i := h ! j, j := h ! i]"

text \<open>
  \<^verbatim>\<open>container/heap\<close> of the Go standard library, which the service calls through
  \<^verbatim>\<open>heap.Push\<close> and \<^verbatim>\<open>heap.Pop\<close>: \<^verbatim>\<open>up\<close> sifts index \<open>j\<close> towards the root,
  \<^verbatim>\<open>down\<close> sifts index \<open>i\<close> towards the leaves inside the first \<open>n\<close> slots.  The parent
  index \<^verbatim>\<open>(j - 1) / 2\<close> is \<open>0\<close> for \<open>j = 0\<close> in Go (division truncates towards zero) and
  in \<open>nat\<close> arithmetic alike.
\<close>

function up :: "balanceHeap \<Rightarrow> nat \<Rightarrow> balanceHeap" where
  "up h j =
     (if (j - 1) div 2 = j \<or> \<not> Less h j ((j - 1) div 2) then h
      else up (Swap h ((j - 1) div 2) j) ((j - 1) div 2))"
  by pat_completeness auto
termination
  by (relation "measure (\<lambda>(h, j). j)") auto

definition down_child :: "balanceHeap \<Rightarrow> nat \<Rightarrow> nat \<Rightarrow> nat" where
  "down_child h i n =
     (if 2 * i + 1 + 1 < n \<and> Less h (2 * i + 1 + 1) (2 * i + 1) then 2 * i + 1 + 1
      else 2 * i + 1)"

function down :: "balanceHeap \<Rightarrow> nat \<Rightarrow> nat \<Rightarrow> balanceHeap" where
  "down h i n =
     (if 2 * i + 1 \<ge> n then h
      else if \<not> Less h (down_child h i n) i then h
      else down (Swap h i (down_child h i n)) (down_child h i n) n)"
  by pat_completeness auto
termination
  by (relation "measure (\<lambda>(h, i, n). n - i)") (auto simp: down_child_def)

text \<open>\<^verbatim>\<open>heap.Push\<close>: append, then sift the new last index up.\<close>

definition heap_Push :: "balanceHeap \<Rightarrow> personBalance \<Rightarrow> balanceHeap" where
  "heap_Push h x = up (h @ [x]) (length (h @ [x]) - 1)"

text \<open>
  \<^verbatim>\<open>heap.Pop\<close>: swap the root with the last slot, sift the new root down inside the first
  \<open>n\<close> slots, then \<^verbatim>\<open>balanceHeap.Pop\<close> cuts the last slot off and returns it.  On an empty
  heap Go panics with an index out of range: \<open>None\<close>.
\<close>

definition heap_Pop :: "balanceHeap \<Rightarrow> (personBalance \<times> balanceHeap) option" where
  "heap_Pop h =
     (if h = [] then None
      else let n = length h - 1;
               h' = down (Swap h 0 n) 0 n
           in Some (last h', butlast h'))"

declare up.simps [simp del] down.simps [simp del]

lemma length_Swap [simp]: "length (Swap h i j) = length h"
  by (simp add: Swap_def)

lemma set_Swap_subset: "i < length h \<Longrightarrow> j < length h \<Longrightarrow> set (Swap h i j) \<subseteq> set h"
  unfolding Swap_def
  by (metis insert_subset nth_mem set_update_subset_insert subset_trans length_list_update
      insert_absorb)

lemma length_up [simp]: "length (up h j) = length h"
proof (induction h j rule: up.induct)
  case (1 h j)
  show ?case
  proof (cases "(j - 1) div 2 = j \<or> \<not> Less h j ((j - 1) div 2)")
    case True
    then show ?thesis by (subst up.simps) simp
  next
    case False
    with "1" show ?thesis by (subst up.simps) simp
  qed
qed

lemma length_down [simp]: "length (down h i n) = length h"
proof (induction h i n rule: down.induct)
  case (1 h i n)
  show ?case
  proof (cases "2 * i + 1 \<ge> n \<or> \<not> Less h (down_child h i n) i")
    case True
    then show ?thesis by (subst down.simps) auto
  next
    case False
    with "1" show ?thesis by (subst down.simps) simp
  qed
qed

lemma length_heap_Push [simp]: "length (heap_Push h x) = Suc (length h)"
  by (simp add: heap_Push_def)

lemma heap_Pop_Some:
  "heap_Pop h = Some (x, h') \<Longrightarrow> h \<noteq> [] \<and> Suc (length h') = length h"
  by (auto simp: heap_Pop_def Let_def split: if_splits)

lemma heap_Pop_nonempty: "h \<noteq> [] \<Longrightarrow> \<exists>x h'. heap_Pop h = Some (x, h')"
  by (simp add: heap_Pop_def Let_def)

lemma math_Round_0 [simp]: "math_Round 0 = 0"
  by (simp add: math_Round_def floor_eq_iff)

lemma round2_0 [simp]: "round2 0 = 0"
  by (simp add: round2_def)

text \<open>One pass through the body of the settlement loop: the edge it appends (if any) and
  the two heaps as it leaves them.\<close>

definition loop_body ::
  "string \<Rightarrow> balanceHeap \<Rightarrow> balanceHeap \<Rightarrow> (Settlement list \<times> balanceHeap \<times> balanceHeap) option" where
  "loop_body currency creditorHeap debtorHeap =
     (case heap_Pop creditorHeap of
        None \<Rightarrow> None
      | Some (creditor, ch1) \<Rightarrow>
          (case heap_Pop debtorHeap of
             None \<Rightarrow> None
           | Some (debtor, dh1) \<Rightarrow>
               let amount = min (balance creditor) (balance debtor);
                   roundedAmount = round2 amount;
                   emitted =
                     (if roundedAmount > BalanceThreshold
                      then [\<lparr>FromUserID = userID debtor, ToUserID = userID creditor,
                             Amount = roundedAmount, Currency = currency\<rparr>]
                      else []);
                   creditor' = creditor\<lparr>balance := round2 (balance creditor - amount)\<rparr>;
                   debtor' = debtor\<lparr>balance := round2 (balance debtor - amount)\<rparr>;
                   ch2 = (if balance creditor' > BalanceThreshold
                          then heap_Push ch1 creditor' else ch1);
                   dh2 = (if balance debtor' > BalanceThreshold
                          then heap_Push dh1 debtor' else dh1)
               in Some (emitted, ch2, dh2)))"

lemma loop_body_decreases:
  assumes "loop_body currency ch dh = Some (emitted, ch', dh')"
  shows "length ch' + length dh' < length ch + length dh"
proof -
  from assms obtain creditor ch1 debtor dh1 where
    pc: "heap_Pop ch = Some (creditor, ch1)" and pd: "heap_Pop dh = Some (debtor, dh1)"
    by (auto simp: loop_body_def split: option.splits)
  from heap_Pop_Some[OF pc] heap_Pop_Some[OF pd]
  have lens: "Suc (length ch1) = length ch" "Suc (length dh1) = length dh" by auto
  show ?thesis
  proof (cases "balance creditor \<le> balance debtor")
    case True
    then have "min (balance creditor) (balance debtor) = balance creditor" by simp
    with assms pc pd lens show ?thesis
      by (auto simp: loop_body_def Let_def BalanceThreshold_def split: if_splits)
  next
    case False
    then have "min (balance creditor) (balance debtor) = balance debtor" by simp
    with assms pc pd lens show ?thesis
      by (auto simp: loop_body_def Let_def BalanceThreshold_def split: if_splits)
  qed
qed

function settle_loop ::
  "string \<Rightarrow> balanceHeap \<Rightarrow> balanceHeap \<Rightarrow> Settlement list \<Rightarrow> Settlement list option" where
  "settle_loop currency creditorHeap debtorHeap settlements =
     (if length creditorHeap > 0 \<and> length debtorHeap > 0 then
        (case loop_body currency creditorHeap debtorHeap of
           None \<Rightarrow> None
         | Some (emitted, ch', dh') \<Rightarrow> settle_loop currency ch' dh' (settlements @ emitted))
      else Some settlements)"
  by pat_completeness auto
termination
  by (relation "measure (\<lambda>(c, ch, dh, s). length ch + length dh)")
     (auto dest: loop_body_decreases)

declare settle_loop.simps [simp del]

text \<open>The number of passes the loop makes, by the same recursion.\<close>

function loop_iterations :: "string \<Rightarrow> balanceHeap \<Rightarrow> balanceHeap \<Rightarrow> nat" where
  "loop_iterations currency creditorHeap debtorHeap =
     (if length creditorHeap > 0 \<and> length debtorHeap > 0 then
        (case loop_body currency creditorHeap debtorHeap of
           None \<Rightarrow> 0
         | Some (emitted, ch', dh') \<Rightarrow> Suc (loop_iterations currency ch' dh'))
      else 0)"
  by pat_completeness auto
termination
  by (relation "measure (\<lambda>(c, ch, dh). length ch + length dh)")
     (auto dest: loop_body_decreases)

declare loop_iterations.simps [simp del]

text \<open>The first loop of \<^verbatim>\<open>calculateSettlementsForCurrency\<close>: a Go map is ranged over in
  an order the runtime chooses; the association list gives that order.\<close>

fun fill_heaps ::
  "(string \<times> rat) list \<Rightarrow> balanceHeap \<times> balanceHeap \<Rightarrow> balanceHeap \<times> balanceHeap" where
  "fill_heaps [] hs = hs"
| "fill_heaps ((uID, bal) # rest) (creditorHeap, debtorHeap) =
     (let roundedBalance = round2 bal in
      if roundedBalance > BalanceThreshold then
        fill_heaps rest (heap_Push creditorHeap \<lparr>userID = uID, balance = roundedBalance\<rparr>, debtorHeap)
      else if roundedBalance < - BalanceThreshold then
        fill_heaps rest (creditorHeap, heap_Push debtorHeap \<lparr>userID = uID, balance = \<bar>roundedBalance\<bar>\<rparr>)
      else fill_heaps rest (creditorHeap, debtorHeap))"

definition calculateSettlementsForCurrency ::
  "(string \<times> rat) list \<Rightarrow> string \<Rightarrow> Settlement list option" where
  "calculateSettlementsForCurrency balances currency =
     (case fill_heaps balances ([], []) of
        (creditorHeap, debtorHeap) \<Rightarrow> settle_loop currency creditorHeap debtorHeap [])"

subsection \<open>Rounding facts\<close>

lemma math_Round_of_int [simp]: "math_Round (of_int k) = of_int k"
proof -
  have h: "\<lfloor>(1::rat) / 2\<rfloor> = 0" by (simp add: floor_eq_iff)
  show ?thesis by (simp add: math_Round_def h)
qed

lemma math_Round_int: "\<exists>k. math_Round x = of_int k"
  by (metis math_Round_def of_int_minus)

lemma round2_cents: "\<exists>k. round2 x = of_int k / 100"
  using math_Round_int[of "x * RoundingFactor"] by (auto simp: round2_def RoundingFactor_def)

lemma round2_of_cents [simp]: "round2 (of_int k / 100) = of_int k / 100"
  by (simp add: round2_def RoundingFactor_def)

lemma round2_idem [simp]: "round2 (round2 x) = round2 x"
  by (metis round2_cents round2_of_cents)

lemma round2_abs_round2 [simp]: "round2 \<bar>round2 x\<bar> = \<bar>round2 x\<bar>"
proof -
  obtain k where k: "round2 x = of_int k / 100" using round2_cents by blast
  have "\<bar>(of_int k :: rat) / 100\<bar> = of_int \<bar>k\<bar> / 100" by simp
  then have "\<bar>round2 x\<bar> = of_int \<bar>k\<bar> / 100" by (simp only: k)
  then show ?thesis by (simp only: round2_of_cents)
qed

lemma math_Round_small:
  assumes "\<bar>x\<bar> < 1"
  shows "\<bar>math_Round x\<bar> \<le> 1"
proof (cases "x < 0")
  case True
  with assms have "- x + 1 / 2 < 2" "0 \<le> - x + 1 / 2" by linarith+
  then have "\<lfloor>- x + 1 / 2\<rfloor> < 2" "0 \<le> \<lfloor>- x + 1 / 2\<rfloor>" by (simp_all add: floor_less_iff)
  then have "\<bar>\<lfloor>- x + 1 / 2\<rfloor>\<bar> \<le> 1" by linarith
  then have "\<bar>(of_int \<lfloor>- x + 1 / 2\<rfloor> :: rat)\<bar> \<le> 1"
    by (metis of_int_abs of_int_le_1_iff)
  with True show ?thesis by (simp add: math_Round_def)
next
  case False
  with assms have "x + 1 / 2 < 2" "0 \<le> x + 1 / 2" by linarith+
  then have "\<lfloor>x + 1 / 2\<rfloor> < 2" "0 \<le> \<lfloor>x + 1 / 2\<rfloor>" by (simp_all add: floor_less_iff)
  then have "\<bar>\<lfloor>x + 1 / 2\<rfloor>\<bar> \<le> 1" by linarith
  then have "\<bar>(of_int \<lfloor>x + 1 / 2\<rfloor> :: rat)\<bar> \<le> 1"
    by (metis of_int_abs of_int_le_1_iff)
  with False show ?thesis by (simp add: math_Round_def)
qed

lemma round2_below_threshold:
  assumes "\<bar>x\<bar> < BalanceThreshold"
  shows "\<not> round2 x > BalanceThreshold" and "\<not> round2 x < - BalanceThreshold"
proof -
  from assms have "\<bar>x * RoundingFactor\<bar> < 1"
    by (simp add: BalanceThreshold_def RoundingFactor_def abs_mult)
  from math_Round_small[OF this] have "\<bar>round2 x\<bar> \<le> 1 / 100"
    by (simp add: round2_def RoundingFactor_def)
  then show "\<not> round2 x > BalanceThreshold" and "\<not> round2 x < - BalanceThreshold"
    by (simp_all add: BalanceThreshold_def abs_le_iff)
qed

lemma fill_heaps_below_threshold:
  "list_all (\<lambda>(uID, bal). \<bar>bal\<bar> < BalanceThreshold) balances \<Longrightarrow> fill_heaps balances hs = hs"
proof (induction balances arbitrary: hs)
  case Nil
  then show ?case by simp
next
  case (Cons p rest)
  obtain uID bal where p: "p = (uID, bal)" by (cases p)
  obtain ch dh where hs: "hs = (ch, dh)" by (cases hs)
  from Cons.prems p have small: "\<bar>bal\<bar> < BalanceThreshold" and rest: "list_all (\<lambda>(uID, bal). \<bar>bal\<bar> < BalanceThreshold) rest"
    by simp_all
  from round2_below_threshold[OF small] Cons.IH[OF rest] show ?case
    by (simp add: p hs Let_def)
qed

subsection \<open>Heap contents\<close>

lemma set_up_subset: "j < length h \<Longrightarrow> set (up h j) \<subseteq> set h"
proof (induction h j rule: up.induct)
  case (1 h j)
  show ?case
  proof (cases "(j - 1) div 2 = j \<or> \<not> Less h j ((j - 1) div 2)")
    case True
    then show ?thesis by (subst up.simps) simp
  next
    case False
    have i: "(j - 1) div 2 < length h" using "1.prems" by linarith
    from False "1.IH" i have "set (up (Swap h ((j - 1) div 2) j) ((j - 1) div 2)) \<subseteq> set (Swap h ((j - 1) div 2) j)"
      by simp
    also have "\<dots> \<subseteq> set h" using set_Swap_subset[OF i "1.prems"] .
    finally show ?thesis using False by (subst up.simps) simp
  qed
qed

lemma down_child_less: "2 * i + 1 < n \<Longrightarrow> down_child h i n < n"
  by (simp add: down_child_def)

lemma set_down_subset: "n \<le> length h \<Longrightarrow> set (down h i n) \<subseteq> set h"
proof (induction h i n rule: down.induct)
  case (1 h i n)
  show ?case
  proof (cases "2 * i + 1 \<ge> n \<or> \<not> Less h (down_child h i n) i")
    case True
    then show ?thesis by (subst down.simps) auto
  next
    case False
    then have lt: "2 * i + 1 < n" by simp
    have c: "down_child h i n < length h" using down_child_less[OF lt, of h] "1.prems" by simp
    have i: "i < length h" using lt "1.prems" by simp
    from False "1.IH" "1.prems"
    have "set (down (Swap h i (down_child h i n)) (down_child h i n) n) \<subseteq> set (Swap h i (down_child h i n))"
      by simp
    also have "\<dots> \<subseteq> set h" using set_Swap_subset[OF i c] .
    finally show ?thesis using False by (subst down.simps) simp
  qed
qed

lemma set_heap_Push_subset: "set (heap_Push h x) \<subseteq> insert x (set h)"
proof -
  have "set (up (h @ [x]) (length (h @ [x]) - 1)) \<subseteq> set (h @ [x])"
    by (rule set_up_subset) simp
  then show ?thesis by (simp add: heap_Push_def)
qed

lemma set_heap_Pop:
  assumes "heap_Pop h = Some (x, h')"
  shows "x \<in> set h" and "set h' \<subseteq> set h"
proof -
  let ?n = "length h - 1"
  let ?h = "down (Swap h 0 ?n) 0 ?n"
  from assms have ne: "h \<noteq> []" and x: "x = last ?h" and h': "h' = butlast ?h"
    by (auto simp: heap_Pop_def Let_def split: if_splits)
  from ne have n: "?n < length h" by simp
  have "0 < length h" using ne by simp
  then have sw: "set (Swap h 0 ?n) \<subseteq> set h" using set_Swap_subset n by blast
  have "set ?h \<subseteq> set (Swap h 0 ?n)" by (rule set_down_subset) simp
  with sw have sub: "set ?h \<subseteq> set h" by blast
  have "?h \<noteq> []" using ne by (metis length_0_conv length_down length_Swap)
  then have "last ?h \<in> set ?h" by simp
  with sub x show "x \<in> set h" by blast
  have "set (butlast ?h) \<subseteq> set ?h" by (auto dest: in_set_butlastD)
  with sub h' show "set h' \<subseteq> set h" by blast
qed

text \<open>Every entry of a heap carries a balance that rounding to two decimals leaves as it is.\<close>

definition rounded_heap :: "balanceHeap \<Rightarrow> bool" where
  "rounded_heap h = list_all (\<lambda>e. round2 (balance e) = balance e) h"

lemma rounded_heap_subset: "rounded_heap h \<Longrightarrow> set h' \<subseteq> set h \<Longrightarrow> rounded_heap h'"
  by (auto simp: rounded_heap_def list_all_iff)

lemma rounded_heap_Push:
  "rounded_heap h \<Longrightarrow> round2 (balance x) = balance x \<Longrightarrow> rounded_heap (heap_Push h x)"
  using set_heap_Push_subset[of h x] by (auto simp: rounded_heap_def list_all_iff)

lemma fill_heaps_rounded:
  "rounded_heap ch \<Longrightarrow> rounded_heap dh \<Longrightarrow> fill_heaps balances (ch, dh) = (ch', dh')
   \<Longrightarrow> rounded_heap ch' \<and> rounded_heap dh'"
proof (induction balances arbitrary: ch dh)
  case Nil
  then show ?case by simp
next
  case (Cons p rest)
  obtain uID bal where p: "p = (uID, bal)" by (cases p)
  show ?case
  proof (cases "round2 bal > BalanceThreshold")
    case True
    with Cons.prems p have "fill_heaps rest (heap_Push ch \<lparr>userID = uID, balance = round2 bal\<rparr>, dh) = (ch', dh')"
      by (simp add: Let_def)
    moreover have "rounded_heap (heap_Push ch \<lparr>userID = uID, balance = round2 bal\<rparr>)"
      using Cons.prems(1) by (intro rounded_heap_Push) simp_all
    ultimately show ?thesis using Cons.IH Cons.prems(2) by blast
  next
    case False
    show ?thesis
    proof (cases "round2 bal < - BalanceThreshold")
      case True
      with False Cons.prems p have "fill_heaps rest (ch, heap_Push dh \<lparr>userID = uID, balance = \<bar>round2 bal\<bar>\<rparr>) = (ch', dh')"
        by (simp add: Let_def)
      moreover have "rounded_heap (heap_Push dh \<lparr>userID = uID, balance = \<bar>round2 bal\<bar>\<rparr>)"
        using Cons.prems(2) by (intro rounded_heap_Push) simp_all
      ultimately show ?thesis using Cons.IH Cons.prems(1) by blast
    next
      case F2: False
      with False Cons.prems p have "fill_heaps rest (ch, dh) = (ch', dh')"
        by (simp add: Let_def)
      then show ?thesis using Cons.IH Cons.prems by blast
    qed
  qed
qed

text \<open>The members the first loop files as creditors and as debtors.\<close>

definition creditors :: "(string \<times> rat) list \<Rightarrow> (string \<times> rat) list" where
  "creditors balances = filter (\<lambda>(uID, bal). round2 bal > BalanceThreshold) balances"

definition debtors :: "(string \<times> rat) list \<Rightarrow> (string \<times> rat) list" where
  "debtors balances =
     filter (\<lambda>(uID, bal). \<not> round2 bal > BalanceThreshold \<and> round2 bal < - BalanceThreshold) balances"

lemma fill_heaps_length:
  "fill_heaps balances (ch, dh) = (ch', dh')
   \<Longrightarrow> length ch' = length ch + length (creditors balances)
     \<and> length dh' = length dh + length (debtors balances)"
proof (induction balances arbitrary: ch dh)
  case Nil
  then show ?case by (simp add: creditors_def debtors_def)
next
  case (Cons p rest)
  obtain uID bal where p: "p = (uID, bal)" by (cases p)
  from Cons.prems p show ?case
    by (auto simp: Let_def creditors_def debtors_def split: if_splits dest!: Cons.IH)
qed

lemma loop_body_Some:
  "creditorHeap \<noteq> [] \<Longrightarrow> debtorHeap \<noteq> []
   \<Longrightarrow> \<exists>emitted ch' dh'. loop_body currency creditorHeap debtorHeap = Some (emitted, ch', dh')"
  using heap_Pop_nonempty[of creditorHeap] heap_Pop_nonempty[of debtorHeap]
  by (auto simp: loop_body_def Let_def)

lemma loop_body_rounded:
  assumes "loop_body currency ch dh = Some (emitted, ch', dh')"
    and "rounded_heap ch" and "rounded_heap dh"
  shows "rounded_heap ch' \<and> rounded_heap dh'"
proof -
  from assms(1) obtain creditor ch1 debtor dh1 where
    pc: "heap_Pop ch = Some (creditor, ch1)" and pd: "heap_Pop dh = Some (debtor, dh1)"
    by (auto simp: loop_body_def split: option.splits)
  have r1: "rounded_heap ch1" "rounded_heap dh1"
    using set_heap_Pop(2)[OF pc] set_heap_Pop(2)[OF pd] assms(2,3) rounded_heap_subset by blast+
  from assms(1) pc pd r1 show ?thesis
    by (auto simp: loop_body_def Let_def split: if_splits intro!: rounded_heap_Push)
qed

lemma loop_body_smaller_leaves:
  assumes "heap_Pop ch = Some (creditor, ch1)" and "heap_Pop dh = Some (debtor, dh1)"
    and "loop_body currency ch dh = Some (emitted, ch', dh')"
  shows "(balance creditor \<le> balance debtor \<longrightarrow> ch' = ch1)
       \<and> (balance debtor \<le> balance creditor \<longrightarrow> dh' = dh1)"
  using assms
  by (auto simp: loop_body_def Let_def BalanceThreshold_def min_def split: if_splits)

lemma loop_iterations_bound:
  "loop_iterations currency ch dh \<le> length ch + length dh"
proof (induction currency ch dh rule: loop_iterations.induct)
  case (1 currency ch dh)
  show ?case
  proof (cases "length ch > 0 \<and> length dh > 0")
    case False
    then show ?thesis by (subst loop_iterations.simps) auto
  next
    case True
    then obtain emitted ch' dh' where b: "loop_body currency ch dh = Some (emitted, ch', dh')"
      using loop_body_Some[of ch dh currency] by auto
    from "1.IH"[OF True b] have "loop_iterations currency ch' dh' \<le> length ch' + length dh'"
      by simp
    with loop_body_decreases[OF b] True b show ?thesis
      by (simp add: loop_iterations.simps[of currency ch dh])
  qed
qed

lemma settle_loop_returns:
  "\<exists>result. settle_loop currency ch dh settlements = Some result"
proof (induction currency ch dh settlements rule: settle_loop.induct)
  case (1 currency ch dh settlements)
  show ?case
  proof (cases "length ch > 0 \<and> length dh > 0")
    case False
    then show ?thesis by (subst settle_loop.simps) auto
  next
    case True
    then obtain emitted ch' dh' where b: "loop_body currency ch dh = Some (emitted, ch', dh')"
      using loop_body_Some[of ch dh currency] by auto
    from "1.IH"[OF True b] obtain result where
      "settle_loop currency ch' dh' (settlements @ emitted) = Some result" by auto
    with True b show ?thesis by (simp add: settle_loop.simps[of currency ch dh settlements])
  qed
qed

section \<open>Claims about the settlement computation\<close>

text \<open>
  C1.  For one currency, the balances \<open>{A: 10.00, B: -10.00}\<close> give exactly one settlement,
  from \<open>B\<close> to \<open>A\<close>, of 10.00, in whichever order the map is ranged over; and a balance map
  all of whose entries lie below the 0.01 threshold in magnitude (equal and opposite
  residues such as \<open>+1e-16\<close> and \<open>-1e-16\<close> among them) gives no settlement at all.
\<close>

theorem settlement_simple_case_and_residue:
  "calculateSettlementsForCurrency [(''A'', 10), (''B'', - 10)] currency =
     Some [\<lparr>FromUserID = ''B'', ToUserID = ''A'', Amount = 10, Currency = currency\<rparr>]
   \<and> calculateSettlementsForCurrency [(''B'', - 10), (''A'', 10)] currency =
     Some [\<lparr>FromUserID = ''B'', ToUserID = ''A'', Amount = 10, Currency = currency\<rparr>]
   \<and> (list_all (\<lambda>(uID, bal). \<bar>bal\<bar> < BalanceThreshold) balances
        \<longrightarrow> calculateSettlementsForCurrency balances currency = Some [])"
proof (intro conjI impI)
  show "calculateSettlementsForCurrency [(''A'', 10), (''B'', - 10)] currency =
     Some [\<lparr>FromUserID = ''B'', ToUserID = ''A'', Amount = 10, Currency = currency\<rparr>]"
    by code_simp
  show "calculateSettlementsForCurrency [(''B'', - 10), (''A'', 10)] currency =
     Some [\<lparr>FromUserID = ''B'', ToUserID = ''A'', Amount = 10, Currency = currency\<rparr>]"
    by code_simp
next
  assume "list_all (\<lambda>(uID, bal). \<bar>bal\<bar> < BalanceThreshold) balances"
  then have "fill_heaps balances ([], []) = ([], [])"
    by (rule fill_heaps_below_threshold)
  then show "calculateSettlementsForCurrency balances currency = Some []"
    by (simp add: calculateSettlementsForCurrency_def settle_loop.simps[of currency "[]" "[]" "[]"])
qed

theorem settlement_simple_case_and_residue_witness:
  "list_all (\<lambda>(uID, bal). \<bar>bal\<bar> < BalanceThreshold)
     [(''A'', 1 / 10 ^ 16), (''B'', - 1 / 10 ^ 16)]
   \<and> calculateSettlementsForCurrency [(''A'', 1 / 10 ^ 16), (''B'', - 1 / 10 ^ 16)] ''INR'' = Some []"
proof -
  have h: "list_all (\<lambda>(uID, bal). \<bar>bal\<bar> < BalanceThreshold)
     [(''A'', 1 / 10 ^ 16), (''B'', - 1 / 10 ^ 16)]"
    by (simp add: BalanceThreshold_def)
  from settlement_simple_case_and_residue
    [of "''INR''" "[(''A'', 1 / 10 ^ 16), (''B'', - 1 / 10 ^ 16)]"] h
  show ?thesis by blast
qed

text \<open>
  C9.  The settlement loop of one currency terminates on every pair of heaps, and so on every
  finite balance map.  A pass through the loop body pops one creditor and one debtor and
  takes the minimum of their balances off both: the smaller one is left at zero and is not
  pushed back, so the two heaps together lose at least one entry in every pass, and the loop
  makes at most as many passes as there are creditors and debtors.  All entries the heaps
  ever hold are rounded to two decimals.
\<close>

theorem settlement_loop_terminates:
  "(creditorHeap \<noteq> [] \<and> debtorHeap \<noteq> [] \<longrightarrow>
      (\<exists>creditor ch1 debtor dh1 emitted ch' dh'.
          heap_Pop creditorHeap = Some (creditor, ch1)
        \<and> heap_Pop debtorHeap = Some (debtor, dh1)
        \<and> loop_body currency creditorHeap debtorHeap = Some (emitted, ch', dh')
        \<and> (balance creditor \<le> balance debtor \<longrightarrow> ch' = ch1)
        \<and> (balance debtor \<le> balance creditor \<longrightarrow> dh' = dh1)
        \<and> length ch' + length dh' < length creditorHeap + length debtorHeap
        \<and> (rounded_heap creditorHeap \<and> rounded_heap debtorHeap
             \<longrightarrow> rounded_heap ch' \<and> rounded_heap dh')))
   \<and> loop_iterations currency creditorHeap debtorHeap \<le> length creditorHeap + length debtorHeap
   \<and> (\<exists>result. settle_loop currency creditorHeap debtorHeap settlements = Some result)
   \<and> (\<exists>ch dh. fill_heaps balances ([], []) = (ch, dh)
        \<and> rounded_heap ch \<and> rounded_heap dh
        \<and> length ch = length (creditors balances) \<and> length dh = length (debtors balances)
        \<and> loop_iterations currency ch dh \<le> length (creditors balances) + length (debtors balances))
   \<and> (\<exists>result. calculateSettlementsForCurrency balances currency = Some result)"
proof (intro conjI impI)
  assume ne: "creditorHeap \<noteq> [] \<and> debtorHeap \<noteq> []"
  then obtain creditor ch1 debtor dh1 where
    pc: "heap_Pop creditorHeap = Some (creditor, ch1)" and
    pd: "heap_Pop debtorHeap = Some (debtor, dh1)"
    using heap_Pop_nonempty[of creditorHeap] heap_Pop_nonempty[of debtorHeap] by auto
  from ne obtain emitted ch' dh' where
    b: "loop_body currency creditorHeap debtorHeap = Some (emitted, ch', dh')"
    using loop_body_Some[of creditorHeap debtorHeap currency] by auto
  from loop_body_smaller_leaves[OF pc pd b] loop_body_decreases[OF b] loop_body_rounded[OF b] pc pd b
  show "\<exists>creditor ch1 debtor dh1 emitted ch' dh'.
          heap_Pop creditorHeap = Some (creditor, ch1)
        \<and> heap_Pop debtorHeap = Some (debtor, dh1)
        \<and> loop_body currency creditorHeap debtorHeap = Some (emitted, ch', dh')
        \<and> (balance creditor \<le> balance debtor \<longrightarrow> ch' = ch1)
        \<and> (balance debtor \<le> balance creditor \<longrightarrow> dh' = dh1)
        \<and> length ch' + length dh' < length creditorHeap + length debtorHeap
        \<and> (rounded_heap creditorHeap \<and> rounded_heap debtorHeap
             \<longrightarrow> rounded_heap ch' \<and> rounded_heap dh')"
    by blast
next
  show "loop_iterations currency creditorHeap debtorHeap \<le> length creditorHeap + length debtorHeap"
    by (rule loop_iterations_bound)
next
  show "\<exists>result. settle_loop currency creditorHeap debtorHeap settlements = Some result"
    by (rule settle_loop_returns)
next
  obtain ch dh where f: "fill_heaps balances ([], []) = (ch, dh)"
    by (cases "fill_heaps balances ([], [])")
  have r0: "rounded_heap []" by (simp add: rounded_heap_def)
  from fill_heaps_rounded[OF r0 r0 f] fill_heaps_length[OF f] loop_iterations_bound[of currency ch dh] f
  show "\<exists>ch dh. fill_heaps balances ([], []) = (ch, dh)
        \<and> rounded_heap ch \<and> rounded_heap dh
        \<and> length ch = length (creditors balances) \<and> length dh = length (debtors balances)
        \<and> loop_iterations currency ch dh \<le> length (creditors balances) + length (debtors balances)"
    by auto
next
  obtain ch dh where f: "fill_heaps balances ([], []) = (ch, dh)"
    by (cases "fill_heaps balances ([], [])")
  with settle_loop_returns[of currency ch dh "[]"]
  show "\<exists>result. calculateSettlementsForCurrency balances currency = Some result"
    by (simp add: calculateSettlementsForCurrency_def)
qed

theorem settlement_loop_terminates_witness:
  "[\<lparr>userID = ''A'', balance = 667 / 100\<rparr>] \<noteq> []
   \<and> [\<lparr>userID = ''C'', balance = 334 / 100\<rparr>, \<lparr>userID = ''B'', balance = 333 / 100\<rparr>] \<noteq> []
   \<and> rounded_heap [\<lparr>userID = ''A'', balance = 667 / 100\<rparr>]
   \<and> rounded_heap [\<lparr>userID = ''C'', balance = 334 / 100\<rparr>, \<lparr>userID = ''B'', balance = 333 / 100\<rparr>]
   \<and> (\<exists>emitted ch' dh'.
         loop_body ''INR'' [\<lparr>userID = ''A'', balance = 667 / 100\<rparr>]
           [\<lparr>userID = ''C'', balance = 334 / 100\<rparr>, \<lparr>userID = ''B'', balance = 333 / 100\<rparr>]
           = Some (emitted, ch', dh')
         \<and> length ch' + length dh' < 3 \<and> rounded_heap ch' \<and> rounded_heap dh')
   \<and> loop_iterations ''INR'' [\<lparr>userID = ''A'', balance = 667 / 100\<rparr>]
        [\<lparr>userID = ''C'', balance = 334 / 100\<rparr>, \<lparr>userID = ''B'', balance = 333 / 100\<rparr>] \<le> 3"
proof -
  have r: "rounded_heap [\<lparr>userID = ''A'', balance = 667 / 100\<rparr>]"
    "rounded_heap [\<lparr>userID = ''C'', balance = 334 / 100\<rparr>, \<lparr>userID = ''B'', balance = 333 / 100\<rparr>]"
    by code_simp+
  from settlement_loop_terminates
    [of "[\<lparr>userID = ''A'', balance = 667 / 100\<rparr>]"
        "[\<lparr>userID = ''C'', balance = 334 / 100\<rparr>, \<lparr>userID = ''B'', balance = 333 / 100\<rparr>]"
        "''INR''" "[]" "[]"] r
  show ?thesis by auto
qed

section \<open>Errors and repositories\<close>

text \<open>Go errors as the modelled services return them: the constructors of the \<^verbatim>\<open>errors\<close>
  package that they use, and \<open>PlainError\<close> for an error that is not an \<^verbatim>\<open>AppError\<close>
  (a repository error, with its text).  \<^verbatim>\<open>DatabaseError\<close> keeps the operation and the
  error it wraps.\<close>

datatype AppError =
    NotGroupMember
  | DatabaseError string AppError
  | AmountMismatch rat rat string
  | CannotDeleteGroupWithDebts
  | UserNotFoundByEmail string
  | CannotAddSelf string
  | AlreadyFriends
  | ExpenseNotFound
  | PlainError string

text \<open>
  A Go map as an association list with distinct keys: ranging over it follows the list,
  a store to a present key keeps its place, a store to a new key appends.
\<close>

fun map_put :: "('k \<times> 'v) list \<Rightarrow> 'k \<Rightarrow> 'v \<Rightarrow> ('k \<times> 'v) list" where
  "map_put [] k v = [(k, v)]"
| "map_put ((k', v') # m) k v = (if k' = k then (k, v) # m else (k', v') # map_put m k v)"

text \<open>
  \<^verbatim>\<open>if m[a] == nil { m[a] = make(map[string]float64) }; m[a][b] = w\<close>
\<close>

definition nested_put ::
  "(string \<times> (string \<times> rat) list) list \<Rightarrow> string \<Rightarrow> string \<Rightarrow> rat
   \<Rightarrow> (string \<times> (string \<times> rat) list) list" where
  "nested_put m a b w =
     map_put m a (map_put (case map_of m a of None \<Rightarrow> [] | Some inner \<Rightarrow> inner) b w)"

text \<open>
  What the group and settlement services see of the database: a failure of the connection
  pool (if any), the \<^verbatim>\<open>groups\<close> and \<^verbatim>\<open>group_members\<close> tables, and for every group the
  rows \<open>(user_id, currency, balance)\<close> that the balance query of
  \<^verbatim>\<open>GetGroupMemberBalances\<close> returns.
\<close>

record group_store =
  pool_error :: "string option"
  groups_tbl :: "string list"
  group_members_tbl :: "(string \<times> string) list"
  balance_rows :: "string \<Rightarrow> (string \<times> string \<times> rat) list"

definition IsMember :: "'a group_store_scheme \<Rightarrow> string \<Rightarrow> string \<Rightarrow> string + bool" where
  "IsMember st groupID uID =
     (case pool_error st of
        Some err \<Rightarrow> Inl (''checking membership: '' @ err)
      | None \<Rightarrow> Inr ((groupID, uID) \<in> set (group_members_tbl st)))"

definition GetGroupMemberBalances ::
  "'a group_store_scheme \<Rightarrow> string \<Rightarrow> string + (string \<times> (string \<times> rat) list) list" where
  "GetGroupMemberBalances st groupID =
     (case pool_error st of
        Some err \<Rightarrow> Inl (''batch getting group member balances: '' @ err)
      | None \<Rightarrow>
          Inr (fold (\<lambda>(uID, currency, bal) result. nested_put result uID currency bal)
                 (balance_rows st groupID) []))"

definition RequireGroupMembership :: "'a group_store_scheme \<Rightarrow> string \<Rightarrow> string \<Rightarrow> AppError option" where
  "RequireGroupMembership st groupID uID =
     (case IsMember st groupID uID of
        Inl err \<Rightarrow> Some (DatabaseError ''checking membership'' (PlainError err))
      | Inr isMember \<Rightarrow> if \<not> isMember then Some NotGroupMember else None)"

section \<open>Settlement service: \<^verbatim>\<open>CalculateSettlements\<close>\<close>

text \<open>The regrouping loop: \<^verbatim>\<open>currencyBalances[currency][userID] = balance\<close>.\<close>

definition regroup ::
  "(string \<times> (string \<times> rat) list) list \<Rightarrow> (string \<times> (string \<times> rat) list) list" where
  "regroup balancesByCurrency =
     fold (\<lambda>(uID, currencyMap) currencyBalances.
             fold (\<lambda>(currency, bal) cb. nested_put cb currency uID bal) currencyMap currencyBalances)
          balancesByCurrency []"

text \<open>The loop over \<^verbatim>\<open>currencyBalances\<close>, appending each currency's settlements.\<close>

fun settle_currencies ::
  "(string \<times> (string \<times> rat) list) list \<Rightarrow> Settlement list \<Rightarrow> Settlement list option" where
  "settle_currencies [] allSettlements = Some allSettlements"
| "settle_currencies ((currency, userBalances) # rest) allSettlements =
     (case calculateSettlementsForCurrency userBalances currency of
        None \<Rightarrow> None
      | Some settlements \<Rightarrow> settle_currencies rest (allSettlements @ settlements))"

text \<open>The outer \<open>option\<close> is \<open>None\<close> for a run-time panic, the sum is Go's
  \<^verbatim>\<open>([]models.Settlement, error)\<close>.\<close>

definition CalculateSettlements ::
  "'a group_store_scheme \<Rightarrow> string \<Rightarrow> string \<Rightarrow> (AppError + Settlement list) option" where
  "CalculateSettlements st groupID uID =
     (case RequireGroupMembership st groupID uID of
        Some err \<Rightarrow> Some (Inl err)
      | None \<Rightarrow>
          (case GetGroupMemberBalances st groupID of
             Inl err \<Rightarrow> Some (Inl (DatabaseError ''getting group member balances'' (PlainError err)))
           | Inr balancesByCurrency \<Rightarrow>
               map_option Inr (settle_currencies (regroup balancesByCurrency) [])))"

subsection \<open>Facts about the map model\<close>

lemma set_map_put_subset: "set (map_put m k v) \<subseteq> insert (k, v) (set m)"
  by (induction m) (auto split: if_splits)

lemma fst_set_map_put: "fst ` set (map_put m k v) = insert k (fst ` set m)"
  by (induction m) force+

lemma distinct_map_put: "distinct (map fst m) \<Longrightarrow> distinct (map fst (map_put m k v))"
proof (induction m)
  case Nil
  then show ?case by simp
next
  case (Cons p m)
  obtain k' v' where p: "p = (k', v')" by (cases p)
  from Cons p fst_set_map_put[of m k v] show ?case by auto
qed

lemma map_put_keeps: "(k', v') \<in> set m \<Longrightarrow> k' \<noteq> k \<Longrightarrow> (k', v') \<in> set (map_put m k v)"
  by (induction m) auto

lemma map_put_has: "(k, v) \<in> set (map_put m k v)"
  by (induction m) auto

text \<open>The triples \<open>(a, b, w)\<close> with \<open>m[a][b] = w\<close> stored in a nested map, and its key pairs.\<close>

definition entries :: "('a \<times> ('b \<times> 'c) list) list \<Rightarrow> ('a \<times> 'b \<times> 'c) set" where
  "entries nm = {(a, b, w). \<exists>inner. (a, inner) \<in> set nm \<and> (b, w) \<in> set inner}"

definition key_pairs :: "('a \<times> ('b \<times> 'c) list) list \<Rightarrow> ('a \<times> 'b) set" where
  "key_pairs nm = {(a, b). \<exists>inner. (a, inner) \<in> set nm \<and> b \<in> fst ` set inner}"

lemma old_inner_in:
  "(case map_of nm a of None \<Rightarrow> [] | Some inner \<Rightarrow> inner) = old \<Longrightarrow> (b, w) \<in> set old
   \<Longrightarrow> (a, old) \<in> set nm"
  by (auto split: option.splits dest: map_of_SomeD)

lemma entries_nested_put_subset:
  "entries (nested_put nm a b w) \<subseteq> insert (a, b, w) (entries nm)"
proof
  fix e assume "e \<in> entries (nested_put nm a b w)"
  then obtain a' b' w' inner where e: "e = (a', b', w')"
    and i: "(a', inner) \<in> set (nested_put nm a b w)" and j: "(b', w') \<in> set inner"
    by (auto simp: entries_def)
  let ?old = "case map_of nm a of None \<Rightarrow> [] | Some inner \<Rightarrow> inner"
  from i set_map_put_subset[of nm a "map_put ?old b w"]
  have "(a', inner) = (a, map_put ?old b w) \<or> (a', inner) \<in> set nm"
    by (auto simp: nested_put_def)
  then show "e \<in> insert (a, b, w) (entries nm)"
  proof
    assume eq: "(a', inner) = (a, map_put ?old b w)"
    with j set_map_put_subset[of ?old b w] have "(b', w') = (b, w) \<or> (b', w') \<in> set ?old"
      by auto
    then show ?thesis
    proof
      assume "(b', w') = (b, w)"
      with eq e show ?thesis by simp
    next
      assume in_old: "(b', w') \<in> set ?old"
      from old_inner_in[OF refl in_old] in_old have "(a, b', w') \<in> entries nm"
        unfolding entries_def by blast
      with eq e show ?thesis by simp
    qed
  next
    assume "(a', inner) \<in> set nm"
    with j e show ?thesis by (auto simp: entries_def)
  qed
qed

lemma keys_nested_put: "fst ` set (nested_put nm a b w) = insert a (fst ` set nm)"
  by (simp add: nested_put_def fst_set_map_put)

lemma distinct_nested_put:
  "distinct (map fst nm) \<Longrightarrow> distinct (map fst (nested_put nm a b w))"
  by (simp add: nested_put_def distinct_map_put)

lemma key_pairs_subset_entries: "key_pairs nm = (\<lambda>(a, b, w). (a, b)) ` entries nm"
  by (force simp: key_pairs_def entries_def)

lemma key_pairs_nested_put: "key_pairs (nested_put nm a b w) = insert (a, b) (key_pairs nm)"
proof (intro equalityI subsetI)
  fix p assume "p \<in> key_pairs (nested_put nm a b w)"
  then obtain e where e: "e \<in> entries (nested_put nm a b w)" and pe: "p = (\<lambda>(a, b, w). (a, b)) e"
    unfolding key_pairs_subset_entries by blast
  from e entries_nested_put_subset[of nm a b w] have "e = (a, b, w) \<or> e \<in> entries nm" by blast
  with pe show "p \<in> insert (a, b) (key_pairs nm)"
    unfolding key_pairs_subset_entries by auto
next
  fix p assume p: "p \<in> insert (a, b) (key_pairs nm)"
  let ?old = "case map_of nm a of None \<Rightarrow> [] | Some inner \<Rightarrow> inner"
  have new: "(a, map_put ?old b w) \<in> set (nested_put nm a b w)"
    by (simp add: nested_put_def map_put_has)
  show "p \<in> key_pairs (nested_put nm a b w)"
  proof (cases "p = (a, b)")
    case True
    have "b \<in> fst ` set (map_put ?old b w)" by (simp add: fst_set_map_put)
    with new True show ?thesis unfolding key_pairs_def by blast
  next
    case False
    with p obtain a' b' inner where p': "p = (a', b')" and i: "(a', inner) \<in> set nm"
      and j: "b' \<in> fst ` set inner"
      by (auto simp: key_pairs_def)
    show ?thesis
    proof (cases "a' = a")
      case ne: False
      with i have "(a', inner) \<in> set (nested_put nm a b w)"
        by (simp add: nested_put_def map_put_keeps)
      with j p' show ?thesis unfolding key_pairs_def by blast
    next
      case eq: True
      from i eq obtain first where f: "map_of nm a = Some first"
        by (metis weak_map_of_SomeI not_None_eq map_of_eq_None_iff fst_conv image_eqI)
      show ?thesis
      proof (cases "b' \<in> fst ` set first")
        case True
        then have "b' \<in> fst ` set (map_put ?old b w)" by (simp add: f fst_set_map_put)
        with new p' eq show ?thesis unfolding key_pairs_def by blast
      next
        case nf: False
        with j have "inner \<noteq> first" by blast
        from f have "(a, first) \<in> set nm" by (rule map_of_SomeD)
        have "(a, inner) \<in> set (nested_put nm a b w)"
          unfolding nested_put_def using i eq \<open>inner \<noteq> first\<close> f
        proof (induction nm)
          case Nil
          then show ?case by simp
        next
          case (Cons q nm)
          obtain k v where q: "q = (k, v)" by (cases q)
          show ?case
          proof (cases "k = a")
            case True
            with Cons.prems q have "v = first" by simp
            with Cons.prems q True show ?thesis by auto
          next
            case False
            with Cons q show ?thesis by (auto simp: map_put_keeps)
          qed
        qed
        with j p' eq show ?thesis unfolding key_pairs_def by blast
      qed
    qed
  qed
qed

text \<open>Storing a list of rows \<open>(a, b, w)\<close> into a nested map, one \<^verbatim>\<open>m[a][b] = w\<close> each.\<close>

definition store_rows ::
  "(string \<times> string \<times> rat) list \<Rightarrow> (string \<times> (string \<times> rat) list) list
   \<Rightarrow> (string \<times> (string \<times> rat) list) list" where
  "store_rows rows nm = fold (\<lambda>(a, b, w) r. nested_put r a b w) rows nm"

lemma store_rows_Nil [simp]: "store_rows [] nm = nm"
  by (simp add: store_rows_def)

lemma store_rows_Cons [simp]:
  "store_rows ((a, b, w) # rows) nm = store_rows rows (nested_put nm a b w)"
  by (simp add: store_rows_def)

lemma store_rows_append [simp]:
  "store_rows (xs @ ys) nm = store_rows ys (store_rows xs nm)"
  by (simp add: store_rows_def)

lemma entries_store_rows: "entries (store_rows rows nm) \<subseteq> set rows \<union> entries nm"
proof (induction rows arbitrary: nm)
  case Nil
  then show ?case by simp
next
  case (Cons r rows)
  obtain a b w where r: "r = (a, b, w)" by (cases r)
  from Cons[of "nested_put nm a b w"] entries_nested_put_subset[of nm a b w] r
  show ?case by auto
qed

lemma keys_store_rows:
  "fst ` set (store_rows rows nm) = fst ` set nm \<union> fst ` set rows"
proof (induction rows arbitrary: nm)
  case Nil
  then show ?case by simp
next
  case (Cons r rows)
  obtain a b w where r: "r = (a, b, w)" by (cases r)
  from Cons[of "nested_put nm a b w"] r show ?case
    by (simp add: keys_nested_put)
qed

lemma distinct_store_rows:
  "distinct (map fst nm) \<Longrightarrow> distinct (map fst (store_rows rows nm))"
proof (induction rows arbitrary: nm)
  case Nil
  then show ?case by simp
next
  case (Cons r rows)
  obtain a b w where r: "r = (a, b, w)" by (cases r)
  from Cons r show ?case by (simp add: distinct_nested_put)
qed

lemma key_pairs_store_rows:
  "key_pairs (store_rows rows nm) = key_pairs nm \<union> (\<lambda>(a, b, w). (a, b)) ` set rows"
proof (induction rows arbitrary: nm)
  case Nil
  then show ?case by simp
next
  case (Cons r rows)
  obtain a b w where r: "r = (a, b, w)" by (cases r)
  from Cons[of "nested_put nm a b w"] r show ?case
    by (simp add: key_pairs_nested_put)
qed

text \<open>The stores the regrouping loop makes, in the order it makes them.\<close>

definition flatten ::
  "(string \<times> (string \<times> rat) list) list \<Rightarrow> (string \<times> string \<times> rat) list" where
  "flatten balancesByCurrency =
     concat (map (\<lambda>(uID, currencyMap). map (\<lambda>(currency, bal). (currency, uID, bal)) currencyMap)
               balancesByCurrency)"

lemma inner_fold_store_rows:
  "fold (\<lambda>(currency, bal) cb. nested_put cb currency uID bal) currencyMap acc =
   store_rows (map (\<lambda>(currency, bal). (currency, uID, bal)) currencyMap) acc"
  by (induction currencyMap arbitrary: acc) auto

lemma outer_fold_store_rows:
  "fold (\<lambda>(uID, currencyMap) currencyBalances.
           fold (\<lambda>(currency, bal) cb. nested_put cb currency uID bal) currencyMap currencyBalances)
        bbc acc = store_rows (flatten bbc) acc"
proof (induction bbc arbitrary: acc)
  case Nil
  then show ?case by (simp add: flatten_def)
next
  case (Cons p bbc)
  obtain uID currencyMap where p: "p = (uID, currencyMap)" by (cases p)
  from Cons[of "store_rows (map (\<lambda>(currency, bal). (currency, uID, bal)) currencyMap) acc"]
  show ?case by (simp add: p inner_fold_store_rows flatten_def)
qed

lemma regroup_store_rows: "regroup bbc = store_rows (flatten bbc) []"
  by (simp add: regroup_def outer_fold_store_rows)

lemma set_flatten: "set (flatten bbc) = {(c, u, b). (u, c, b) \<in> entries bbc}"
  by (force simp: flatten_def entries_def)

lemma entries_empty [simp]: "entries [] = {}" and key_pairs_empty [simp]: "key_pairs [] = {}"
  by (simp_all add: entries_def key_pairs_def)

lemma regroup_of_rows:
  fixes rows :: "(string \<times> string \<times> rat) list"
  defines "cb \<equiv> regroup (store_rows rows [])"
  shows "distinct (map fst cb)"
    and "fst ` set cb = (\<lambda>(u, c, b). c) ` set rows"
    and "(c, bucket) \<in> set cb \<Longrightarrow> (u, b) \<in> set bucket \<Longrightarrow> (u, c, b) \<in> set rows"
proof -
  let ?bbc = "store_rows rows []"
  show "distinct (map fst cb)"
    by (simp add: cb_def regroup_store_rows distinct_store_rows)
  have "fst ` set cb = fst ` set (flatten ?bbc)"
    by (simp add: cb_def regroup_store_rows keys_store_rows)
  also have "\<dots> = snd ` key_pairs ?bbc"
    unfolding set_flatten key_pairs_subset_entries by force
  also have "\<dots> = (\<lambda>(u, c, b). c) ` set rows"
    unfolding key_pairs_store_rows by force
  finally show "fst ` set cb = (\<lambda>(u, c, b). c) ` set rows" .
  assume "(c, bucket) \<in> set cb" and "(u, b) \<in> set bucket"
  then have "(c, u, b) \<in> entries cb" unfolding entries_def by blast
  with entries_store_rows[of "flatten ?bbc" "[]"] have "(c, u, b) \<in> set (flatten ?bbc)"
    by (auto simp: cb_def regroup_store_rows)
  then have "(u, c, b) \<in> entries ?bbc" by (simp add: set_flatten)
  with entries_store_rows[of rows "[]"] show "(u, c, b) \<in> set rows" by auto
qed

subsection \<open>The currency tag of the emitted settlements\<close>

lemma loop_body_currency:
  "loop_body currency ch dh = Some (emitted, ch', dh') \<Longrightarrow> list_all (\<lambda>e. Currency e = currency) emitted"
  by (auto simp: loop_body_def Let_def split: option.splits if_splits)

lemma settle_loop_currency:
  "settle_loop currency ch dh settlements = Some result
   \<Longrightarrow> list_all (\<lambda>e. Currency e = currency) settlements
   \<Longrightarrow> list_all (\<lambda>e. Currency e = currency) result"
proof (induction currency ch dh settlements rule: settle_loop.induct)
  case (1 currency ch dh settlements)
  show ?case
  proof (cases "length ch > 0 \<and> length dh > 0")
    case False
    with "1.prems" show ?thesis by (subst (asm) settle_loop.simps) auto
  next
    case True
    then obtain emitted ch' dh' where b: "loop_body currency ch dh = Some (emitted, ch', dh')"
      using loop_body_Some[of ch dh currency] by auto
    from "1.prems"(1) True b have r: "settle_loop currency ch' dh' (settlements @ emitted) = Some result"
      by (simp add: settle_loop.simps[of currency ch dh settlements])
    from loop_body_currency[OF b] "1.prems"(2)
    have "list_all (\<lambda>e. Currency e = currency) (settlements @ emitted)" by simp
    from "1.IH"[OF True b _ _ r this] show ?thesis by simp
  qed
qed

lemma calculateSettlementsForCurrency_currency:
  "calculateSettlementsForCurrency balances currency = Some result
   \<Longrightarrow> list_all (\<lambda>e. Currency e = currency) result"
  by (auto simp: calculateSettlementsForCurrency_def split: prod.splits
      dest: settle_loop_currency)

lemma settle_currencies_parts:
  "settle_currencies cb allSettlements = Some result
   \<Longrightarrow> \<exists>parts. result = allSettlements @ concat parts
        \<and> list_all2 (\<lambda>(currency, userBalances) part.
              calculateSettlementsForCurrency userBalances currency = Some part
              \<and> list_all (\<lambda>e. Currency e = currency) part) cb parts"
proof (induction cb arbitrary: allSettlements)
  case Nil
  then show ?case by simp
next
  case (Cons p cb)
  obtain currency userBalances where p: "p = (currency, userBalances)" by (cases p)
  from Cons.prems p obtain part where
    c: "calculateSettlementsForCurrency userBalances currency = Some part" and
    r: "settle_currencies cb (allSettlements @ part) = Some result"
    by (auto split: option.splits)
  from Cons.IH[OF r] obtain parts where
    ps: "result = (allSettlements @ part) @ concat parts"
    "list_all2 (\<lambda>(currency, userBalances) part.
              calculateSettlementsForCurrency userBalances currency = Some part
              \<and> list_all (\<lambda>e. Currency e = currency) part) cb parts" by blast
  from ps c calculateSettlementsForCurrency_currency[OF c] p
  have "result = allSettlements @ concat (part # parts)
        \<and> list_all2 (\<lambda>(currency, userBalances) part.
              calculateSettlementsForCurrency userBalances currency = Some part
              \<and> list_all (\<lambda>e. Currency e = currency) part) (p # cb) (part # parts)"
    by simp
  then show ?case by blast
qed

lemma settle_currencies_returns: "\<exists>result. settle_currencies cb allSettlements = Some result"
proof (induction cb arbitrary: allSettlements)
  case Nil
  then show ?case by simp
next
  case (Cons p cb)
  obtain currency userBalances where p: "p = (currency, userBalances)" by (cases p)
  obtain ch dh where f: "fill_heaps userBalances ([], []) = (ch, dh)"
    by (cases "fill_heaps userBalances ([], [])")
  from settle_loop_returns[of currency ch dh "[]"] f obtain part where
    "calculateSettlementsForCurrency userBalances currency = Some part"
    by (auto simp: calculateSettlementsForCurrency_def)
  with Cons[of "allSettlements @ part"] p show ?case by simp
qed

text \<open>The fixture of the test case "Multi-currency settlements": group \<open>group1\<close> with members
  \<open>A\<close> and \<open>B\<close> and balances \<open>{A: {INR: 100, USD: 50}, B: {INR: -100, USD: -50}}\<close>.\<close>

definition multi_currency_store :: group_store where
  "multi_currency_store =
     \<lparr>pool_error = None, groups_tbl = [''group1''],
      group_members_tbl = [(''group1'', ''A''), (''group1'', ''B'')],
      balance_rows = (\<lambda>groupID. if groupID = ''group1''
         then [(''A'', ''INR'', 100), (''A'', ''USD'', 50), (''B'', ''INR'', - 100), (''B'', ''USD'', - 50)]
         else [])\<rparr>"

text \<open>
  C2.  \<^verbatim>\<open>CalculateSettlements\<close> regroups the balances into one bucket per currency that
  occurs in them (each currency once), a bucket holds only balances of its own currency, the
  greedy computation is run on each bucket by itself, the answer is the concatenation of the
  per-bucket answers, and every settlement of a bucket's answer carries that bucket's currency.
  For \<open>{A: {INR: 100, USD: 50}, B: {INR: -100, USD: -50}}\<close> the answer is exactly two
  settlements, \<open>B\<close> to \<open>A\<close> of 100 in INR and \<open>B\<close> to \<open>A\<close> of 50 in USD.
\<close>

theorem calculate_settlements_per_currency:
  "CalculateSettlements multi_currency_store ''group1'' ''A'' =
     Some (Inr [\<lparr>FromUserID = ''B'', ToUserID = ''A'', Amount = 100, Currency = ''INR''\<rparr>,
                \<lparr>FromUserID = ''B'', ToUserID = ''A'', Amount = 50, Currency = ''USD''\<rparr>])
   \<and> (pool_error st = None \<and> (groupID, uID) \<in> set (group_members_tbl st) \<longrightarrow>
        (\<exists>balancesByCurrency parts.
            GetGroupMemberBalances st groupID = Inr balancesByCurrency
          \<and> CalculateSettlements st groupID uID = Some (Inr (concat parts))
          \<and> distinct (map fst (regroup balancesByCurrency))
          \<and> fst ` set (regroup balancesByCurrency) = (\<lambda>(u, c, b). c) ` set (balance_rows st groupID)
          \<and> (\<forall>(c, bucket) \<in> set (regroup balancesByCurrency).
                \<forall>(u, b) \<in> set bucket. (u, c, b) \<in> set (balance_rows st groupID))
          \<and> list_all2 (\<lambda>(currency, userBalances) part.
                calculateSettlementsForCurrency userBalances currency = Some part
                \<and> list_all (\<lambda>e. Currency e = currency) part)
              (regroup balancesByCurrency) parts))"
proof (intro conjI impI)
  show "CalculateSettlements multi_currency_store ''group1'' ''A'' =
     Some (Inr [\<lparr>FromUserID = ''B'', ToUserID = ''A'', Amount = 100, Currency = ''INR''\<rparr>,
                \<lparr>FromUserID = ''B'', ToUserID = ''A'', Amount = 50, Currency = ''USD''\<rparr>])"
    by code_simp
next
  assume h: "pool_error st = None \<and> (groupID, uID) \<in> set (group_members_tbl st)"
  let ?rows = "balance_rows st groupID"
  let ?bbc = "store_rows ?rows []"
  from h have g: "GetGroupMemberBalances st groupID = Inr ?bbc"
    by (simp add: GetGroupMemberBalances_def store_rows_def)
  from h have m: "RequireGroupMembership st groupID uID = None"
    by (simp add: RequireGroupMembership_def IsMember_def)
  obtain result where r: "settle_currencies (regroup ?bbc) [] = Some result"
    using settle_currencies_returns by blast
  from settle_currencies_parts[OF r] obtain parts where
    ps: "result = concat parts"
    "list_all2 (\<lambda>(currency, userBalances) part.
              calculateSettlementsForCurrency userBalances currency = Some part
              \<and> list_all (\<lambda>e. Currency e = currency) part) (regroup ?bbc) parts"
    by auto
  from g m r ps(1) have c: "CalculateSettlements st groupID uID = Some (Inr (concat parts))"
    by (simp add: CalculateSettlements_def)
  have b: "\<forall>(c, bucket) \<in> set (regroup ?bbc). \<forall>(u, b) \<in> set bucket. (u, c, b) \<in> set ?rows"
    using regroup_of_rows(3)[of _ _ ?rows] by blast
  from g c regroup_of_rows(1)[of ?rows] regroup_of_rows(2)[of ?rows] b ps(2)
  show "\<exists>balancesByCurrency parts.
            GetGroupMemberBalances st groupID = Inr balancesByCurrency
          \<and> CalculateSettlements st groupID uID = Some (Inr (concat parts))
          \<and> distinct (map fst (regroup balancesByCurrency))
          \<and> fst ` set (regroup balancesByCurrency) = (\<lambda>(u, c, b). c) ` set (balance_rows st groupID)
          \<and> (\<forall>(c, bucket) \<in> set (regroup balancesByCurrency).
                \<forall>(u, b) \<in> set bucket. (u, c, b) \<in> set (balance_rows st groupID))
          \<and> list_all2 (\<lambda>(currency, userBalances) part.
                calculateSettlementsForCurrency userBalances currency = Some part
                \<and> list_all (\<lambda>e. Currency e = currency) part)
              (regroup balancesByCurrency) parts"
    by blast
qed

theorem calculate_settlements_per_currency_witness:
  "pool_error multi_currency_store = None
   \<and> (''group1'', ''B'') \<in> set (group_members_tbl multi_currency_store)
   \<and> (\<exists>balancesByCurrency parts.
          GetGroupMemberBalances multi_currency_store ''group1'' = Inr balancesByCurrency
        \<and> CalculateSettlements multi_currency_store ''group1'' ''B'' = Some (Inr (concat parts))
        \<and> distinct (map fst (regroup balancesByCurrency))
        \<and> list_all2 (\<lambda>(currency, userBalances) part.
              calculateSettlementsForCurrency userBalances currency = Some part
              \<and> list_all (\<lambda>e. Currency e = currency) part)
            (regroup balancesByCurrency) parts)"
proof -
  have h: "pool_error multi_currency_store = None
     \<and> (''group1'', ''B'') \<in> set (group_members_tbl multi_currency_store)"
    by (simp add: multi_currency_store_def)
  from calculate_settlements_per_currency[of multi_currency_store "''group1''" "''B''"] h
  show ?thesis by blast
qed

section \<open>Expense service\<close>

text \<open>
  The models of \<^verbatim>\<open>models\<close> that the expense service reads or writes.  Columns that the
  service only carries along (receipt image URL, the tax fields, the explanation, the
  created-at and updated-at stamps) are left out.  A \<^verbatim>\<open>time.Time\<close> is an optional instant,
  \<open>None\<close> being the zero time.
\<close>

record ExpensePayer =
  payer_ID :: string
  payer_ExpenseID :: string
  payer_UserID :: string
  AmountPaid :: rat

record ExpenseSplit =
  split_ID :: string
  split_ExpenseID :: string
  split_UserID :: string
  split_Amount :: rat

record ReceiptItemAssignment =
  assignment_ID :: string
  ReceiptItemID :: string
  assignment_UserID :: string

record ReceiptItem =
  item_ID :: string
  item_ExpenseID :: string
  Name :: string
  Price :: rat
  Assignments :: "ReceiptItemAssignment list"

record Expense =
  expense_ID :: string
  GroupID :: string
  PaidByUserID :: "string option"
  TotalAmount :: rat
  Description :: string
  Type :: string
  Category :: string
  DateISO :: "nat option"
  Date :: string
  Time :: string
  Splits :: "ExpenseSplit list"
  Payers :: "ExpensePayer list"
  ReceiptItems :: "ReceiptItem list"

text \<open>\<^verbatim>\<open>validateExpenseAmounts\<close>, shared by \<^verbatim>\<open>Create\<close> and \<^verbatim>\<open>Update\<close>.\<close>

definition validateExpenseAmounts :: "Expense \<Rightarrow> ExpenseSplit list \<Rightarrow> AppError option" where
  "validateExpenseAmounts expense splits =
     (let totalPaid = fold (\<lambda>payer total. total + AmountPaid payer) (Payers expense) 0;
          roundedTotalPaid = round2 totalPaid;
          roundedTotalAmount = round2 (TotalAmount expense)
      in if \<bar>roundedTotalPaid - roundedTotalAmount\<bar> > AmountTolerance
         then Some (AmountMismatch roundedTotalPaid roundedTotalAmount ''payer'')
         else
           let totalSplit = fold (\<lambda>split total. total + split_Amount split) splits 0;
               roundedTotalSplit = round2 totalSplit
           in if \<bar>roundedTotalSplit - roundedTotalAmount\<bar> > AmountTolerance
              then Some (AmountMismatch roundedTotalSplit roundedTotalAmount ''split'')
              else None)"


text \<open>Go struct literals that name only some fields: the others hold their zero values.\<close>

definition payer_lit :: "string \<Rightarrow> rat \<Rightarrow> ExpensePayer" where
  "payer_lit uID amount =
     \<lparr>payer_ID = [], payer_ExpenseID = [], payer_UserID = uID, AmountPaid = amount\<rparr>"

definition split_lit :: "string \<Rightarrow> rat \<Rightarrow> ExpenseSplit" where
  "split_lit uID amount =
     \<lparr>split_ID = [], split_ExpenseID = [], split_UserID = uID, split_Amount = amount\<rparr>"

definition expense_lit :: "rat \<Rightarrow> ExpensePayer list \<Rightarrow> Expense" where
  "expense_lit totalAmount payers =
     \<lparr>expense_ID = [], GroupID = [], PaidByUserID = None, TotalAmount = totalAmount,
      Description = [], Type = [], Category = [], DateISO = None, Date = [], Time = [],
      Splits = [], Payers = payers, ReceiptItems = []\<rparr>"



subsection \<open>The expense store and \<^verbatim>\<open>Update\<close>\<close>

text \<open>\<^verbatim>\<open>contains\<close> and \<^verbatim>\<open>containsHelper\<close> of the \<^verbatim>\<open>errors\<close> package; the loop of the helper
  runs for \<open>i = 0, \<dots>, len(s) - len(substr)\<close> and not at all when that bound is negative.\<close>

definition containsHelper :: "string \<Rightarrow> string \<Rightarrow> bool" where
  "containsHelper s substr =
     (length substr \<le> length s
      \<and> list_ex (\<lambda>i. take (length substr) (drop i s) = substr)
            [0 ..< Suc (length s - length substr)])"

definition contains :: "string \<Rightarrow> string \<Rightarrow> bool" where
  "contains s substr =
     (length s \<ge> length substr \<and> (s = substr \<or> length s > 0 \<and> containsHelper s substr))"

definition IsNotFoundError :: "string \<Rightarrow> bool" where
  "IsNotFoundError errStr = (contains errStr ''no rows'' \<or> contains errStr ''not found'')"

definition IsDuplicateError :: "string \<Rightarrow> bool" where
  "IsDuplicateError errStr =
     (contains errStr ''duplicate key'' \<or> contains errStr ''unique constraint'')"

text \<open>
  The tables behind the expense repository, on top of the group tables.  A row of
  \<^verbatim>\<open>expenses\<close> is an \<^verbatim>\<open>Expense\<close> whose three list fields are empty; a row of
  \<^verbatim>\<open>receipt_items\<close> carries its assignments.  With a working pool no statement fails.
\<close>

record expense_store = group_store +
  expenses_tbl :: "Expense list"
  expense_payers_tbl :: "ExpensePayer list"
  expense_splits_tbl :: "ExpenseSplit list"
  receipt_items_tbl :: "ReceiptItem list"

text \<open>\<^verbatim>\<open>uuid.New().String()\<close>: the identifiers it hands out, in the order of the calls.\<close>

record uuid_gen =
  uuid_source :: "nat \<Rightarrow> string"
  uuid_drawn :: nat

definition uuid_New :: "uuid_gen \<Rightarrow> string \<times> uuid_gen" where
  "uuid_New g = (uuid_source g (uuid_drawn g), g\<lparr>uuid_drawn := Suc (uuid_drawn g)\<rparr>)"

text \<open>\<^verbatim>\<open>expenseRepository.GetByID\<close>; a point query without a row fails with pgx's
  \<^verbatim>\<open>no rows in result set\<close>.\<close>

definition GetByID :: "'a expense_store_scheme \<Rightarrow> string \<Rightarrow> string + Expense" where
  "GetByID st eid =
     (case pool_error st of
        Some err \<Rightarrow> Inl (''getting expense by id: '' @ err)
      | None \<Rightarrow>
          (case find (\<lambda>e. expense_ID e = eid) (expenses_tbl st) of
             None \<Rightarrow> Inl ''getting expense by id: no rows in result set''
           | Some row \<Rightarrow>
               Inr (row\<lparr>Payers := filter (\<lambda>p. payer_ExpenseID p = eid) (expense_payers_tbl st),
                        Splits := filter (\<lambda>s. split_ExpenseID s = eid) (expense_splits_tbl st),
                        ReceiptItems := filter (\<lambda>i. item_ExpenseID i = eid) (receipt_items_tbl st)\<rparr>)))"

text \<open>The statements of the replace transaction.\<close>

definition repo_Update :: "'a expense_store_scheme \<Rightarrow> Expense \<Rightarrow> 'a expense_store_scheme" where
  "repo_Update st expense =
     st\<lparr>expenses_tbl :=
          map (\<lambda>row. if expense_ID row = expense_ID expense
                      then row\<lparr>TotalAmount := TotalAmount expense, Description := Description expense,
                               Type := Type expense, Category := Category expense,
                               DateISO := DateISO expense, Date := Date expense, Time := Time expense\<rparr>
                      else row)
              (expenses_tbl st)\<rparr>"

definition DeletePayers :: "'a expense_store_scheme \<Rightarrow> string \<Rightarrow> 'a expense_store_scheme" where
  "DeletePayers st eid =
     st\<lparr>expense_payers_tbl := filter (\<lambda>p. payer_ExpenseID p \<noteq> eid) (expense_payers_tbl st)\<rparr>"

text \<open>\<^verbatim>\<open>INSERT \<dots> ON CONFLICT (expense_id, user_id) DO UPDATE SET amount_paid\<close>\<close>

definition CreatePayer :: "'a expense_store_scheme \<Rightarrow> ExpensePayer \<Rightarrow> 'a expense_store_scheme" where
  "CreatePayer st payer =
     (if list_ex (\<lambda>p. payer_ExpenseID p = payer_ExpenseID payer \<and> payer_UserID p = payer_UserID payer)
           (expense_payers_tbl st)
      then st\<lparr>expense_payers_tbl :=
             map (\<lambda>p. if payer_ExpenseID p = payer_ExpenseID payer \<and> payer_UserID p = payer_UserID payer
                       then p\<lparr>AmountPaid := AmountPaid payer\<rparr> else p)
                 (expense_payers_tbl st)\<rparr>
      else st\<lparr>expense_payers_tbl := expense_payers_tbl st @ [payer]\<rparr>)"

definition DeleteSplits :: "'a expense_store_scheme \<Rightarrow> string \<Rightarrow> 'a expense_store_scheme" where
  "DeleteSplits st eid =
     st\<lparr>expense_splits_tbl := filter (\<lambda>s. split_ExpenseID s \<noteq> eid) (expense_splits_tbl st)\<rparr>"

definition CreateSplit :: "'a expense_store_scheme \<Rightarrow> ExpenseSplit \<Rightarrow> 'a expense_store_scheme" where
  "CreateSplit st split = st\<lparr>expense_splits_tbl := expense_splits_tbl st @ [split]\<rparr>"

definition DeleteReceiptItems :: "'a expense_store_scheme \<Rightarrow> string \<Rightarrow> 'a expense_store_scheme" where
  "DeleteReceiptItems st eid =
     st\<lparr>receipt_items_tbl := filter (\<lambda>i. item_ExpenseID i \<noteq> eid) (receipt_items_tbl st)\<rparr>"

definition CreateReceiptItem :: "'a expense_store_scheme \<Rightarrow> ReceiptItem \<Rightarrow> 'a expense_store_scheme" where
  "CreateReceiptItem st item = st\<lparr>receipt_items_tbl := receipt_items_tbl st @ [item]\<rparr>"

text \<open>The three loops of the transaction: a fresh identifier for every row, then the insert.\<close>

fun create_payers ::
  "'a expense_store_scheme \<Rightarrow> uuid_gen \<Rightarrow> string \<Rightarrow> ExpensePayer list
   \<Rightarrow> 'a expense_store_scheme \<times> uuid_gen" where
  "create_payers st g eid [] = (st, g)"
| "create_payers st g eid (payer # rest) =
     (case uuid_New g of
        (newID, g') \<Rightarrow>
          create_payers (CreatePayer st (payer\<lparr>payer_ID := newID, payer_ExpenseID := eid\<rparr>)) g' eid rest)"

fun create_splits ::
  "'a expense_store_scheme \<Rightarrow> uuid_gen \<Rightarrow> string \<Rightarrow> ExpenseSplit list
   \<Rightarrow> 'a expense_store_scheme \<times> uuid_gen" where
  "create_splits st g eid [] = (st, g)"
| "create_splits st g eid (split # rest) =
     (case uuid_New g of
        (newID, g') \<Rightarrow>
          create_splits (CreateSplit st (split\<lparr>split_ID := newID, split_ExpenseID := eid\<rparr>)) g' eid rest)"

fun fresh_assignments ::
  "uuid_gen \<Rightarrow> string \<Rightarrow> ReceiptItemAssignment list \<Rightarrow> ReceiptItemAssignment list \<times> uuid_gen" where
  "fresh_assignments g itemID [] = ([], g)"
| "fresh_assignments g itemID (a # rest) =
     (case uuid_New g of
        (newID, g') \<Rightarrow>
          (case fresh_assignments g' itemID rest of
             (rest', g'') \<Rightarrow> (a\<lparr>assignment_ID := newID, ReceiptItemID := itemID\<rparr> # rest', g'')))"

fun create_receipt_items ::
  "'a expense_store_scheme \<Rightarrow> uuid_gen \<Rightarrow> string \<Rightarrow> ReceiptItem list
   \<Rightarrow> 'a expense_store_scheme \<times> uuid_gen" where
  "create_receipt_items st g eid [] = (st, g)"
| "create_receipt_items st g eid (item # rest) =
     (case uuid_New g of
        (newID, g') \<Rightarrow>
          (case fresh_assignments g' newID (Assignments item) of
             (assignments, g'') \<Rightarrow>
               create_receipt_items
                 (CreateReceiptItem st
                    (item\<lparr>item_ID := newID, item_ExpenseID := eid, Assignments := assignments\<rparr>))
                 g'' eid rest))"

definition replace_tx ::
  "'a expense_store_scheme \<Rightarrow> uuid_gen \<Rightarrow> string \<Rightarrow> Expense \<Rightarrow> ExpenseSplit list
   \<Rightarrow> 'a expense_store_scheme \<times> uuid_gen" where
  "replace_tx st g expenseID expense splits =
     (case create_payers (DeletePayers (repo_Update st expense) expenseID) g expenseID (Payers expense) of
        (st1, g1) \<Rightarrow>
          (case create_splits (DeleteSplits st1 expenseID) g1 expenseID splits of
             (st2, g2) \<Rightarrow>
               create_receipt_items (DeleteReceiptItems st2 expenseID) g2 expenseID
                 (ReceiptItems expense)))"

text \<open>The request as \<^verbatim>\<open>Update\<close> completes it from the stored expense before it validates.\<close>

definition fill_defaults :: "string \<Rightarrow> Expense \<Rightarrow> Expense \<Rightarrow> Expense" where
  "fill_defaults expenseID existingExpense expense =
     (let e1 = expense\<lparr>expense_ID := expenseID, GroupID := GroupID existingExpense\<rparr>;
          e2 = (if Category e1 = [] then e1\<lparr>Category := Category existingExpense\<rparr> else e1);
          e3 = (if Type e2 = [] then e2\<lparr>Type := Type existingExpense\<rparr> else e2)
      in if DateISO e3 = None
         then e3\<lparr>DateISO := DateISO existingExpense, Date := Date existingExpense,
                 Time := Time existingExpense\<rparr>
         else e3)"

definition synthesize_payer :: "Expense \<Rightarrow> Expense \<Rightarrow> uuid_gen \<Rightarrow> Expense \<times> uuid_gen" where
  "synthesize_payer existingExpense expense g =
     (if length (Payers expense) = 0 then
        (let e1 = (if PaidByUserID expense = None \<and> PaidByUserID existingExpense \<noteq> None
                   then expense\<lparr>PaidByUserID := PaidByUserID existingExpense\<rparr> else expense)
         in case PaidByUserID e1 of
              Some paidBy \<Rightarrow>
                (case uuid_New g of
                   (newID, g') \<Rightarrow>
                     (e1\<lparr>Payers := [\<lparr>payer_ID = newID, payer_ExpenseID = expense_ID e1,
                                     payer_UserID = paidBy, AmountPaid = TotalAmount e1\<rparr>]\<rparr>, g'))
            | None \<Rightarrow> (e1, g))
      else (expense, g))"

definition Update ::
  "'a expense_store_scheme \<Rightarrow> uuid_gen \<Rightarrow> string \<Rightarrow> string \<Rightarrow> Expense \<Rightarrow> ExpenseSplit list
   \<Rightarrow> (AppError + Expense) \<times> 'a expense_store_scheme \<times> uuid_gen" where
  "Update st g expenseID uID expense splits =
     (case GetByID st expenseID of
        Inl err \<Rightarrow>
          (Inl (if IsNotFoundError err then ExpenseNotFound
                else DatabaseError ''getting expense'' (PlainError err)), st, g)
      | Inr existingExpense \<Rightarrow>
          (case RequireGroupMembership st (GroupID existingExpense) uID of
             Some err \<Rightarrow> (Inl err, st, g)
           | None \<Rightarrow>
               (case synthesize_payer existingExpense
                       (fill_defaults expenseID existingExpense expense) g of
                  (expense', g1) \<Rightarrow>
                    (case validateExpenseAmounts expense' splits of
                       Some err \<Rightarrow> (Inl err, st, g1)
                     | None \<Rightarrow>
                         (case replace_tx st g1 expenseID expense' splits of
                            (st', g2) \<Rightarrow>
                              (case GetByID st' expenseID of
                                 Inl err \<Rightarrow> (Inl (PlainError err), st', g2)
                               | Inr updated \<Rightarrow> (Inr updated, st', g2)))))))"

text \<open>A stored expense without a paid-by user, for which \<open>A\<close> paid 10.00 and \<open>A\<close> and \<open>B\<close>
  owe 5.00 each, in a group whose members are \<open>A\<close> and \<open>B\<close>.\<close>

definition stored_expense_store :: expense_store where
  "stored_expense_store =
     \<lparr>pool_error = None, groups_tbl = [''g1''],
      group_members_tbl = [(''g1'', ''A''), (''g1'', ''B'')],
      balance_rows = (\<lambda>groupID. []),
      expenses_tbl = [(expense_lit 10 [])\<lparr>expense_ID := ''e1'', GroupID := ''g1'',
                        Description := ''Dinner'', Type := ''EQUAL'', Category := ''EXPENSE''\<rparr>],
      expense_payers_tbl = [(payer_lit ''A'' 10)\<lparr>payer_ID := ''p1'', payer_ExpenseID := ''e1''\<rparr>],
      expense_splits_tbl = [(split_lit ''A'' 5)\<lparr>split_ID := ''s1'', split_ExpenseID := ''e1''\<rparr>,
                            (split_lit ''B'' 5)\<lparr>split_ID := ''s2'', split_ExpenseID := ''e1''\<rparr>],
      receipt_items_tbl = []\<rparr>"

definition some_uuids :: uuid_gen where
  "some_uuids = \<lparr>uuid_source = (\<lambda>n. replicate (Suc n) CHR ''u''), uuid_drawn = 0\<rparr>"

text \<open>
  C10.  When \<^verbatim>\<open>Update\<close> is called by a member with an empty payer list, and neither the
  request nor the stored expense names a paid-by user, no payer is synthesized and no
  identifier is drawn; if the rounded total of the request is more than 0.001 away from zero,
  the call is rejected with the payer-side amount mismatch (payer sum 0 against the rounded
  total), and the store is handed back as it was: the expense row, its payers, splits and
  receipt items are untouched, since the replace transaction has not begun.
\<close>

theorem update_without_payer_rejected:
  assumes "GetByID st expenseID = Inr existingExpense"
    and "RequireGroupMembership st (GroupID existingExpense) uID = None"
    and "Payers expense = []"
    and "PaidByUserID expense = None"
    and "PaidByUserID existingExpense = None"
    and "\<bar>0 - round2 (TotalAmount expense)\<bar> > AmountTolerance"
  shows "Payers (fst (synthesize_payer existingExpense
                        (fill_defaults expenseID existingExpense expense) g)) = []
       \<and> snd (synthesize_payer existingExpense
                 (fill_defaults expenseID existingExpense expense) g) = g
       \<and> Update st g expenseID uID expense splits =
           (Inl (AmountMismatch 0 (round2 (TotalAmount expense)) ''payer''), st, g)
       \<and> GetByID (fst (snd (Update st g expenseID uID expense splits))) expenseID
           = Inr existingExpense"
proof -
  let ?e = "fill_defaults expenseID existingExpense expense"
  have p: "Payers ?e = []" "PaidByUserID ?e = None" "TotalAmount ?e = TotalAmount expense"
    using assms(3,4) by (simp_all add: fill_defaults_def Let_def)
  have s: "synthesize_payer existingExpense ?e g = (?e, g)"
    using p assms(5) by (simp add: synthesize_payer_def Let_def)
  have v: "validateExpenseAmounts ?e splits
            = Some (AmountMismatch 0 (round2 (TotalAmount expense)) ''payer'')"
    using p assms(6) by (simp add: validateExpenseAmounts_def Let_def)
  have u: "Update st g expenseID uID expense splits =
           (Inl (AmountMismatch 0 (round2 (TotalAmount expense)) ''payer''), st, g)"
    using assms(1,2) s v by (simp add: Update_def)
  from p s u assms(1) show ?thesis by simp
qed

theorem update_without_payer_rejected_witness:
  "Update stored_expense_store some_uuids ''e1'' ''A'' (expense_lit 25 []) [split_lit ''A'' 25] =
     (Inl (AmountMismatch 0 25 ''payer''), stored_expense_store, some_uuids)"
proof -
  let ?ex = "(expense_lit 10 [])\<lparr>expense_ID := ''e1'', GroupID := ''g1'',
                Description := ''Dinner'', Type := ''EQUAL'', Category := ''EXPENSE'',
                Payers := [(payer_lit ''A'' 10)\<lparr>payer_ID := ''p1'', payer_ExpenseID := ''e1''\<rparr>],
                Splits := [(split_lit ''A'' 5)\<lparr>split_ID := ''s1'', split_ExpenseID := ''e1''\<rparr>,
                           (split_lit ''B'' 5)\<lparr>split_ID := ''s2'', split_ExpenseID := ''e1''\<rparr>],
                ReceiptItems := []\<rparr>"
  have a: "GetByID stored_expense_store ''e1'' = Inr ?ex"
    by (simp add: GetByID_def stored_expense_store_def expense_lit_def payer_lit_def split_lit_def)
  have b: "RequireGroupMembership stored_expense_store (GroupID ?ex) ''A'' = None"
    by (simp add: RequireGroupMembership_def IsMember_def stored_expense_store_def)
  have c: "Payers (expense_lit 25 []) = []" "PaidByUserID (expense_lit 25 []) = None"
    "PaidByUserID ?ex = None"
    by (simp_all add: expense_lit_def)
  have r: "round2 25 = 25" by code_simp
  have d: "\<bar>0 - round2 (TotalAmount (expense_lit 25 []))\<bar> > AmountTolerance"
    by (simp add: expense_lit_def r AmountTolerance_def)
  from update_without_payer_rejected[OF a b c d, of some_uuids "[split_lit ''A'' 25]"] r
  show ?thesis by (simp add: expense_lit_def)
qed

section \<open>Group service: \<^verbatim>\<open>Delete\<close>\<close>

record Balance =
  balance_UserID :: string
  OwedAmount :: rat
  OwedToUserID :: "string option"

text \<open>\<^verbatim>\<open>groupService.calculateBalances\<close>: one entry for every member and currency whose
  rounded balance is beyond the threshold.\<close>

definition calculateBalances :: "'a group_store_scheme \<Rightarrow> string \<Rightarrow> AppError + Balance list" where
  "calculateBalances st groupID =
     (case GetGroupMemberBalances st groupID of
        Inl err \<Rightarrow> Inl (DatabaseError ''getting group member balances'' (PlainError err))
      | Inr balancesByCurrency \<Rightarrow>
          Inr (concat (map (\<lambda>(uID, currencyMap).
                 concat (map (\<lambda>(currency, bal).
                    let roundedBalance = round2 bal in
                    if \<bar>roundedBalance\<bar> > BalanceThreshold
                    then [\<lparr>balance_UserID = uID, OwedAmount = roundedBalance, OwedToUserID = None\<rparr>]
                    else []) currencyMap)) balancesByCurrency)))"

text \<open>\<^verbatim>\<open>groupRepository.Delete\<close>: \<^verbatim>\<open>DELETE FROM groups WHERE id = $1\<close>.  What goes with the
  row (members, expenses) is the schema's cascade and not a statement of the service.\<close>

definition groupRepo_Delete :: "'a group_store_scheme \<Rightarrow> string \<Rightarrow> string + 'a group_store_scheme" where
  "groupRepo_Delete st groupID =
     (case pool_error st of
        Some err \<Rightarrow> Inl (''deleting group: '' @ err)
      | None \<Rightarrow> Inr (st\<lparr>groups_tbl := filter (\<lambda>g. g \<noteq> groupID) (groups_tbl st)\<rparr>))"

text \<open>\<^verbatim>\<open>groupService.Delete\<close>: the error it returns (\<open>None\<close> for \<^verbatim>\<open>nil\<close>) and the store.\<close>

definition Delete :: "'a group_store_scheme \<Rightarrow> string \<Rightarrow> string \<Rightarrow> AppError option \<times> 'a group_store_scheme" where
  "Delete st groupID uID =
     (case RequireGroupMembership st groupID uID of
        Some err \<Rightarrow> (Some err, st)
      | None \<Rightarrow>
          (case calculateBalances st groupID of
             Inl err \<Rightarrow> (Some (DatabaseError ''calculating balances'' err), st)
           | Inr balances \<Rightarrow>
               if length balances > 0 then (Some CannotDeleteGroupWithDebts, st)
               else
                 (case groupRepo_Delete st groupID of
                    Inl err \<Rightarrow> (Some (DatabaseError ''deleting group'' (PlainError err)), st)
                  | Inr st' \<Rightarrow> (None, st'))))"

lemma member_balances_empty_iff:
  "concat (map (\<lambda>(currency, bal).
              let roundedBalance = round2 bal in
              if \<bar>roundedBalance\<bar> > BalanceThreshold
              then [\<lparr>balance_UserID = uID, OwedAmount = roundedBalance, OwedToUserID = None\<rparr>]
              else []) currencyMap) = []
   \<longleftrightarrow> list_all (\<lambda>(currency, bal). \<not> \<bar>round2 bal\<bar> > BalanceThreshold) currencyMap"
  by (induction currencyMap) (auto simp: Let_def)

lemma all_balances_empty_iff:
  "concat (map (\<lambda>(uID, currencyMap).
       concat (map (\<lambda>(currency, bal).
              let roundedBalance = round2 bal in
              if \<bar>roundedBalance\<bar> > BalanceThreshold
              then [\<lparr>balance_UserID = uID, OwedAmount = roundedBalance, OwedToUserID = None\<rparr>]
              else []) currencyMap)) balancesByCurrency) = []
   \<longleftrightarrow> list_all (\<lambda>(uID, currencyMap).
          list_all (\<lambda>(currency, bal). \<not> \<bar>round2 bal\<bar> > BalanceThreshold) currencyMap)
        balancesByCurrency"
proof (induction balancesByCurrency)
  case Nil
  then show ?case by simp
next
  case (Cons p rest)
  obtain uID currencyMap where p: "p = (uID, currencyMap)" by (cases p)
  from Cons show ?case by (simp add: p member_balances_empty_iff del: concat_eq_Nil_conv)
qed

lemma calculateBalances_empty_iff:
  assumes "GetGroupMemberBalances st groupID = Inr balancesByCurrency"
  shows "calculateBalances st groupID = Inr [] \<longleftrightarrow>
         list_all (\<lambda>(uID, currencyMap).
            list_all (\<lambda>(currency, bal). \<not> \<bar>round2 bal\<bar> > BalanceThreshold) currencyMap)
          balancesByCurrency"
  using assms by (simp add: calculateBalances_def all_balances_empty_iff del: concat_eq_Nil_conv)

lemma calculateBalances_Inr:
  assumes "GetGroupMemberBalances st groupID = Inr balancesByCurrency"
  shows "\<exists>balances. calculateBalances st groupID = Inr balances"
  using assms by (simp add: calculateBalances_def)

lemma math_Round_unit:
  assumes "\<bar>x\<bar> \<le> 1"
  shows "\<bar>math_Round x\<bar> \<le> 1"
proof (cases "x < 0")
  case True
  with assms have "- x + 1 / 2 < 2" "0 \<le> - x + 1 / 2" by linarith+
  then have "\<lfloor>- x + 1 / 2\<rfloor> < 2" "0 \<le> \<lfloor>- x + 1 / 2\<rfloor>" by (simp_all add: floor_less_iff)
  then have "\<bar>\<lfloor>- x + 1 / 2\<rfloor>\<bar> \<le> 1" by linarith
  then have "\<bar>(of_int \<lfloor>- x + 1 / 2\<rfloor> :: rat)\<bar> \<le> 1"
    by (metis of_int_abs of_int_le_1_iff)
  with True show ?thesis by (simp add: math_Round_def)
next
  case False
  with assms have "x + 1 / 2 < 2" "0 \<le> x + 1 / 2" by linarith+
  then have "\<lfloor>x + 1 / 2\<rfloor> < 2" "0 \<le> \<lfloor>x + 1 / 2\<rfloor>" by (simp_all add: floor_less_iff)
  then have "\<bar>\<lfloor>x + 1 / 2\<rfloor>\<bar> \<le> 1" by linarith
  then have "\<bar>(of_int \<lfloor>x + 1 / 2\<rfloor> :: rat)\<bar> \<le> 1"
    by (metis of_int_abs of_int_le_1_iff)
  with False show ?thesis by (simp add: math_Round_def)
qed

lemma round2_within_threshold:
  assumes "\<bar>x\<bar> \<le> BalanceThreshold"
  shows "\<not> \<bar>round2 x\<bar> > BalanceThreshold"
proof -
  from assms have "\<bar>x * RoundingFactor\<bar> \<le> 1"
    by (simp add: BalanceThreshold_def RoundingFactor_def abs_mult)
  from math_Round_unit[OF this] show ?thesis
    by (simp add: round2_def RoundingFactor_def BalanceThreshold_def)
qed

lemma calculateBalances_entries:
  "calculateBalances st groupID = Inr balances
   \<Longrightarrow> list_all (\<lambda>b. \<bar>OwedAmount b\<bar> > BalanceThreshold \<and> OwedAmount b \<noteq> 0) balances"
  by (auto simp: calculateBalances_def list_all_iff Let_def BalanceThreshold_def
      split: sum.splits if_splits)

text \<open>A group whose two members are one cent apart.\<close>

definition settled_store :: group_store where
  "settled_store =
     \<lparr>pool_error = None, groups_tbl = [''group0'', ''group1''],
      group_members_tbl = [(''group1'', ''A''), (''group1'', ''B'')],
      balance_rows = (\<lambda>groupID. if groupID = ''group1''
         then [(''A'', ''INR'', 1 / 100), (''B'', ''INR'', - 1 / 100)]
         else [])\<rparr>"

text \<open>
  C4.  When a member asks for the deletion of a group and the balances can be read,
  the service answers "cannot delete group with debts", and leaves the store alone, if
  some member's balance in some currency, rounded to two decimals, exceeds 0.01 in absolute
  value; it issues the delete and answers without error if every balance in every currency
  is within 0.01 of zero.  The refusal is given exactly when \<^verbatim>\<open>calculateBalances\<close> computes
  at least one balance, and every balance it computes is beyond the threshold, so non-zero.
\<close>

theorem delete_group_guard:
  assumes "pool_error st = None" and "(groupID, uID) \<in> set (group_members_tbl st)"
  shows "\<exists>balancesByCurrency balances.
      GetGroupMemberBalances st groupID = Inr balancesByCurrency
    \<and> calculateBalances st groupID = Inr balances
    \<and> list_all (\<lambda>b. \<bar>OwedAmount b\<bar> > BalanceThreshold \<and> OwedAmount b \<noteq> 0) balances
    \<and> (list_ex (\<lambda>(u, m). list_ex (\<lambda>(c, bal). \<bar>round2 bal\<bar> > BalanceThreshold) m)
          balancesByCurrency
        \<longrightarrow> Delete st groupID uID = (Some CannotDeleteGroupWithDebts, st))
    \<and> (list_all (\<lambda>(u, m). list_all (\<lambda>(c, bal). \<bar>bal\<bar> \<le> BalanceThreshold) m)
          balancesByCurrency
        \<longrightarrow> Delete st groupID uID =
              (None, st\<lparr>groups_tbl := filter (\<lambda>g. g \<noteq> groupID) (groups_tbl st)\<rparr>))
    \<and> (Delete st groupID uID = (Some CannotDeleteGroupWithDebts, st) \<longleftrightarrow> balances \<noteq> [])
    \<and> (Delete st groupID uID =
          (None, st\<lparr>groups_tbl := filter (\<lambda>g. g \<noteq> groupID) (groups_tbl st)\<rparr>)
        \<longleftrightarrow> balances = [])"
proof -
  from assms(1) obtain bbc where g: "GetGroupMemberBalances st groupID = Inr bbc"
    by (simp add: GetGroupMemberBalances_def)
  from calculateBalances_Inr[OF g] obtain balances where
    c: "calculateBalances st groupID = Inr balances" by blast
  from assms have m: "RequireGroupMembership st groupID uID = None"
    by (simp add: RequireGroupMembership_def IsMember_def)
  have d: "Delete st groupID uID =
      (if balances \<noteq> [] then (Some CannotDeleteGroupWithDebts, st)
       else (None, st\<lparr>groups_tbl := filter (\<lambda>g. g \<noteq> groupID) (groups_tbl st)\<rparr>))"
    using m c assms(1) by (simp add: Delete_def groupRepo_Delete_def)
  have e: "balances = [] \<longleftrightarrow>
      list_all (\<lambda>(uID, currencyMap).
            list_all (\<lambda>(currency, bal). \<not> \<bar>round2 bal\<bar> > BalanceThreshold) currencyMap) bbc"
    using calculateBalances_empty_iff[OF g] c by simp
  have debt: "list_ex (\<lambda>(u, m). list_ex (\<lambda>(c, bal). \<bar>round2 bal\<bar> > BalanceThreshold) m) bbc
      \<Longrightarrow> balances \<noteq> []"
    unfolding e list_all_iff list_ex_iff by fastforce
  have settled: "list_all (\<lambda>(u, m). list_all (\<lambda>(c, bal). \<bar>bal\<bar> \<le> BalanceThreshold) m) bbc
      \<Longrightarrow> balances = []"
    unfolding e list_all_iff using round2_within_threshold by fastforce
  from g c calculateBalances_entries[OF c] d debt settled show ?thesis by auto
qed

theorem delete_group_guard_witness:
  "pool_error multi_currency_store = None
   \<and> (''group1'', ''A'') \<in> set (group_members_tbl multi_currency_store)
   \<and> Delete multi_currency_store ''group1'' ''A'' =
       (Some CannotDeleteGroupWithDebts, multi_currency_store)
   \<and> pool_error settled_store = None
   \<and> (''group1'', ''A'') \<in> set (group_members_tbl settled_store)
   \<and> Delete settled_store ''group1'' ''A'' =
       (None, settled_store\<lparr>groups_tbl := [''group0'']\<rparr>)"
proof -
  have a: "pool_error multi_currency_store = None"
    "(''group1'', ''A'') \<in> set (group_members_tbl multi_currency_store)"
    by (simp_all add: multi_currency_store_def)
  have b: "pool_error settled_store = None"
    "(''group1'', ''A'') \<in> set (group_members_tbl settled_store)"
    by (simp_all add: settled_store_def)
  have g1: "GetGroupMemberBalances multi_currency_store ''group1'' =
      Inr [(''A'', [(''INR'', 100), (''USD'', 50)]), (''B'', [(''INR'', - 100), (''USD'', - 50)])]"
    by code_simp
  have g2: "GetGroupMemberBalances settled_store ''group1'' =
      Inr [(''A'', [(''INR'', 1 / 100)]), (''B'', [(''INR'', - 1 / 100)])]"
    by code_simp
  have r: "round2 100 = 100" by code_simp
  have f: "filter (\<lambda>g. g \<noteq> ''group1'') (groups_tbl settled_store) = [''group0'']"
    by (simp add: settled_store_def)
  from delete_group_guard[OF a] g1 r
  have x: "Delete multi_currency_store ''group1'' ''A'' =
       (Some CannotDeleteGroupWithDebts, multi_currency_store)"
    by (auto simp: BalanceThreshold_def)
  from delete_group_guard[OF b] g2 f
  have y: "Delete settled_store ''group1'' ''A'' = (None, settled_store\<lparr>groups_tbl := [''group0'']\<rparr>)"
    by (auto simp: BalanceThreshold_def)
  from a b x y show ?thesis by blast
qed

section \<open>Import service: \<^verbatim>\<open>importExpenseRow\<close>\<close>

text \<open>A parsed row of a Splitwise export; \<^verbatim>\<open>Balances\<close> is ranged over in list order.\<close>

record SplitwiseRow =
  row_Date :: nat
  row_Description :: string
  row_Category :: string
  Cost :: rat
  row_Currency :: string
  Balances :: "(string \<times> rat) list"

text \<open>The first loop: \<^verbatim>\<open>totalOwed\<close>.\<close>

definition totalOwed_loop :: "(string \<times> rat) list \<Rightarrow> rat" where
  "totalOwed_loop balances =
     fold (\<lambda>(memberName, bal) totalOwed.
             if bal < - AmountTolerance then totalOwed + \<bar>bal\<bar> else totalOwed)
          balances 0"

text \<open>The second loop: payers and splits, a fresh identifier for each.\<close>

fun member_loop ::
  "(string \<rightharpoonup> string) \<Rightarrow> string \<Rightarrow> rat \<Rightarrow> (string \<times> rat) list
   \<Rightarrow> ExpensePayer list \<times> ExpenseSplit list \<times> uuid_gen
   \<Rightarrow> ExpensePayer list \<times> ExpenseSplit list \<times> uuid_gen" where
  "member_loop memberMapping expenseID payerShare [] acc = acc"
| "member_loop memberMapping expenseID payerShare ((memberName, bal) # rest) (payers, splits, g) =
     (case memberMapping memberName of
        None \<Rightarrow> member_loop memberMapping expenseID payerShare rest (payers, splits, g)
      | Some uID \<Rightarrow>
          if bal > AmountTolerance then
            (case uuid_New g of
               (payerID, g1) \<Rightarrow>
                 if payerShare > AmountTolerance then
                   (case uuid_New g1 of
                      (splitID, g2) \<Rightarrow>
                        member_loop memberMapping expenseID payerShare rest
                          (payers @ [\<lparr>payer_ID = payerID, payer_ExpenseID = expenseID,
                                      payer_UserID = uID, AmountPaid = bal + payerShare\<rparr>],
                           splits @ [\<lparr>split_ID = splitID, split_ExpenseID = expenseID,
                                      split_UserID = uID, split_Amount = payerShare\<rparr>],
                           g2))
                 else
                   member_loop memberMapping expenseID payerShare rest
                     (payers @ [\<lparr>payer_ID = payerID, payer_ExpenseID = expenseID,
                                 payer_UserID = uID, AmountPaid = bal + payerShare\<rparr>],
                      splits, g1))
          else if bal < - AmountTolerance then
            (case uuid_New g of
               (splitID, g1) \<Rightarrow>
                 member_loop memberMapping expenseID payerShare rest
                   (payers,
                    splits @ [\<lparr>split_ID = splitID, split_ExpenseID = expenseID,
                               split_UserID = uID, split_Amount = \<bar>bal\<bar>\<rparr>],
                    g1))
          else member_loop memberMapping expenseID payerShare rest (payers, splits, g))"

text \<open>The search of the fallback: \<^verbatim>\<open>maxPayer\<close> and \<^verbatim>\<open>maxBalance\<close> start from their zero
  values, the empty string and 0.\<close>

definition max_payer_loop :: "(string \<times> rat) list \<Rightarrow> string \<times> rat" where
  "max_payer_loop balances =
     fold (\<lambda>(memberName, bal) (maxPayer, maxBalance).
             if bal > maxBalance then (memberName, bal) else (maxPayer, maxBalance))
          balances ([], 0)"

definition fallback_payer ::
  "(string \<rightharpoonup> string) \<Rightarrow> string \<Rightarrow> SplitwiseRow \<Rightarrow> ExpensePayer list \<times> uuid_gen
   \<Rightarrow> ExpensePayer list \<times> uuid_gen" where
  "fallback_payer memberMapping expenseID row pg =
     (case pg of
        (payers, g) \<Rightarrow>
          if length payers = 0 then
            (case max_payer_loop (Balances row) of
               (maxPayer, maxBalance) \<Rightarrow>
                 if maxPayer \<noteq> [] then
                   (case memberMapping maxPayer of
                      Some uID \<Rightarrow>
                        (case uuid_New g of
                           (payerID, g1) \<Rightarrow>
                             (payers @ [\<lparr>payer_ID = payerID, payer_ExpenseID = expenseID,
                                         payer_UserID = uID, AmountPaid = Cost row\<rparr>], g1))
                    | None \<Rightarrow> (payers, g))
                 else (payers, g))
          else (payers, g))"

text \<open>Everything \<^verbatim>\<open>importExpenseRow\<close> works out before it writes: the identifier of the
  expense, its payers and its splits.\<close>

definition expense_row_parts ::
  "uuid_gen \<Rightarrow> SplitwiseRow \<Rightarrow> (string \<rightharpoonup> string)
   \<Rightarrow> string \<times> ExpensePayer list \<times> ExpenseSplit list \<times> uuid_gen" where
  "expense_row_parts g row memberMapping =
     (case uuid_New g of
        (expenseID, g0) \<Rightarrow>
          let totalOwed = totalOwed_loop (Balances row);
              payerShare = Cost row - totalOwed
          in case member_loop memberMapping expenseID payerShare (Balances row) ([], [], g0) of
               (payers, splits, g1) \<Rightarrow>
                 (case fallback_payer memberMapping expenseID row (payers, g1) of
                    (payers', g2) \<Rightarrow> (expenseID, payers', splits, g2)))"

text \<open>\<^verbatim>\<open>expenseRepository.Create\<close>, and the writes that end \<^verbatim>\<open>importExpenseRow\<close>; the
  layout \<^verbatim>\<open>2006-01-02\<close> of the date is a parameter.\<close>

definition repo_Create :: "'a expense_store_scheme \<Rightarrow> Expense \<Rightarrow> 'a expense_store_scheme" where
  "repo_Create st expense =
     st\<lparr>expenses_tbl := expenses_tbl st
          @ [expense\<lparr>Category := (if Category expense = [] then ''EXPENSE'' else Category expense),
                     Payers := [], Splits := [], ReceiptItems := []\<rparr>]\<rparr>"

definition importExpenseRow ::
  "'a expense_store_scheme \<Rightarrow> uuid_gen \<Rightarrow> (nat \<Rightarrow> string) \<Rightarrow> string \<Rightarrow> SplitwiseRow
   \<Rightarrow> (string \<rightharpoonup> string) \<Rightarrow> string option \<times> 'a expense_store_scheme \<times> uuid_gen" where
  "importExpenseRow st g format_date groupID row memberMapping =
     (case expense_row_parts g row memberMapping of
        (expenseID, payers, splits, g') \<Rightarrow>
          (case pool_error st of
             Some err \<Rightarrow> (Some (''creating expense: creating expense: '' @ err), st, g')
           | None \<Rightarrow>
               (None,
                fold (\<lambda>split s. CreateSplit s split) splits
                  (fold (\<lambda>payer s. CreatePayer s payer) payers
                     (repo_Create st
                        \<lparr>expense_ID = expenseID, GroupID = groupID, PaidByUserID = None,
                         TotalAmount = Cost row, Description = row_Description row,
                         Type = ''EQUAL'', Category = ''EXPENSE'',
                         DateISO = Some (row_Date row), Date = format_date (row_Date row),
                         Time = ''12:00'', Splits = [], Payers = payers, ReceiptItems = []\<rparr>)),
                g')))"

subsection \<open>What the row computation amounts to\<close>




















section \<open>Friend service and comment service\<close>

record Comment =
  comment_ID :: string
  comment_ExpenseID :: string
  comment_UserID :: string
  Text :: string

record CommentReaction =
  reaction_ID :: string
  reaction_CommentID :: string
  reaction_UserID :: string
  Emoji :: string

text \<open>
  The tables of the user, friend and comment repositories, on top of the expense tables:
  \<^verbatim>\<open>users\<close> as \<open>(id, email)\<close>, \<^verbatim>\<open>friends\<close> as \<open>(user_id, friend_id)\<close> with that pair as
  primary key, \<^verbatim>\<open>comments\<close>, and \<^verbatim>\<open>comment_reactions\<close> with
  \<^verbatim>\<open>UNIQUE (comment_id, user_id, emoji)\<close>.
\<close>

record social_store = expense_store +
  users_tbl :: "(string \<times> string) list"
  friends_tbl :: "(string \<times> string) list"
  comments_tbl :: "Comment list"
  comment_reactions_tbl :: "CommentReaction list"

subsection \<open>Friends\<close>

text \<open>\<^verbatim>\<open>userRepository.GetByEmail\<close>, giving the user's id.\<close>

definition GetByEmail :: "'a social_store_scheme \<Rightarrow> string \<Rightarrow> string + string" where
  "GetByEmail st email =
     (case pool_error st of
        Some err \<Rightarrow> Inl (''getting user by email: '' @ err)
      | None \<Rightarrow>
          (case find (\<lambda>(uID, userEmail). userEmail = email) (users_tbl st) of
             None \<Rightarrow> Inl ''getting user by email: no rows in result set''
           | Some (uID, userEmail) \<Rightarrow> Inr uID))"

text \<open>\<^verbatim>\<open>friendRepository.Add\<close>:
  \<^verbatim>\<open>INSERT INTO friends (user_id, friend_id) VALUES ($1, $2) ON CONFLICT DO NOTHING\<close>.
  A pair that is already there is left alone and no error is raised.\<close>

definition friendRepo_Add ::
  "'a social_store_scheme \<Rightarrow> string \<Rightarrow> string \<Rightarrow> string + 'a social_store_scheme" where
  "friendRepo_Add st uID friendID =
     (case pool_error st of
        Some err \<Rightarrow> Inl (''adding friend: '' @ err)
      | None \<Rightarrow>
          if (uID, friendID) \<in> set (friends_tbl st) then Inr st
          else Inr (st\<lparr>friends_tbl := friends_tbl st @ [(uID, friendID)]\<rparr>))"

definition AddFriendByEmail ::
  "'a social_store_scheme \<Rightarrow> string \<Rightarrow> string \<Rightarrow> AppError option \<times> 'a social_store_scheme" where
  "AddFriendByEmail st uID email =
     (case GetByEmail st email of
        Inl err \<Rightarrow>
          (Some (if IsNotFoundError err then UserNotFoundByEmail email
                 else DatabaseError ''finding user by email'' (PlainError err)), st)
      | Inr friendUserID \<Rightarrow>
          if friendUserID = uID then (Some (CannotAddSelf ''add as a friend''), st)
          else
            (case friendRepo_Add st uID friendUserID of
               Inl err \<Rightarrow>
                 (Some (if IsDuplicateError err then AlreadyFriends
                        else DatabaseError ''adding friend'' (PlainError err)), st)
             | Inr st' \<Rightarrow> (None, st')))"

subsection \<open>Comment reactions\<close>

definition GetCommentByID :: "'a social_store_scheme \<Rightarrow> string \<Rightarrow> string + Comment" where
  "GetCommentByID st commentID =
     (case pool_error st of
        Some err \<Rightarrow> Inl (''getting comment: '' @ err)
      | None \<Rightarrow>
          (case find (\<lambda>c. comment_ID c = commentID) (comments_tbl st) of
             None \<Rightarrow> Inl ''getting comment: no rows in result set''
           | Some c \<Rightarrow> Inr c))"




definition checkAccess :: "'a social_store_scheme \<Rightarrow> string \<Rightarrow> string \<Rightarrow> AppError option" where
  "checkAccess st expenseID uID =
     (case GetByID st expenseID of
        Inl err \<Rightarrow>
          Some (if IsNotFoundError err then ExpenseNotFound
                else DatabaseError ''finding expense'' (PlainError err))
      | Inr expense \<Rightarrow>
          (case IsMember st (GroupID expense) uID of
             Inl err \<Rightarrow> Some (DatabaseError ''checking membership'' (PlainError err))
           | Inr isMember \<Rightarrow> if \<not> isMember then Some NotGroupMember else None))"



text \<open>Two users, \<open>uA\<close> and \<open>uB\<close>, members of one group with one expense and one comment on it.\<close>

definition social_fixture :: social_store where
  "social_fixture =
     \<lparr>pool_error = None, groups_tbl = [''g1''],
      group_members_tbl = [(''g1'', ''uA''), (''g1'', ''uB'')],
      balance_rows = (\<lambda>groupID. []),
      expenses_tbl = [(expense_lit 10 [])\<lparr>expense_ID := ''e1'', GroupID := ''g1''\<rparr>],
      expense_payers_tbl = [], expense_splits_tbl = [], receipt_items_tbl = [],
      users_tbl = [(''uA'', ''alice@example.com''), (''uB'', ''bob@example.com'')],
      friends_tbl = [],
      comments_tbl = [\<lparr>comment_ID = ''c1'', comment_ExpenseID = ''e1'', comment_UserID = ''uB'',
                        Text = ''thanks''\<rparr>],
      comment_reactions_tbl = []\<rparr>"


text \<open>
  C7.  \<^verbatim>\<open>AddFriendByEmail\<close> answers "cannot add self" whenever the email resolves to the
  caller.  When it resolves to somebody else and the pool works, the call succeeds, whether
  or not the pair is already in \<^verbatim>\<open>friends\<close>: the insert ignores the conflict, the
  repository reports no error, and the "already friends" branch of the service is never taken.
\<close>

theorem add_friend_by_email_behaviour:
  "(GetByEmail st email = Inr uID \<longrightarrow>
      AddFriendByEmail st uID email = (Some (CannotAddSelf ''add as a friend''), st))
   \<and> (pool_error st = None \<and> GetByEmail st email = Inr friendID \<and> friendID \<noteq> uID
        \<and> (uID, friendID) \<in> set (friends_tbl st) \<longrightarrow>
      AddFriendByEmail st uID email = (None, st))
   \<and> (pool_error st = None \<and> GetByEmail st email = Inr friendID \<and> friendID \<noteq> uID
        \<and> (uID, friendID) \<notin> set (friends_tbl st) \<longrightarrow>
      AddFriendByEmail st uID email =
        (None, st\<lparr>friends_tbl := friends_tbl st @ [(uID, friendID)]\<rparr>))"
  by (simp add: AddFriendByEmail_def friendRepo_Add_def)

theorem add_friend_by_email_behaviour_witness:
  "AddFriendByEmail social_fixture ''uA'' ''alice@example.com'' =
     (Some (CannotAddSelf ''add as a friend''), social_fixture)
   \<and> AddFriendByEmail social_fixture ''uA'' ''bob@example.com'' =
       (None, social_fixture\<lparr>friends_tbl := [(''uA'', ''uB'')]\<rparr>)
   \<and> AddFriendByEmail (social_fixture\<lparr>friends_tbl := [(''uA'', ''uB'')]\<rparr>) ''uA'' ''bob@example.com'' =
       (None, social_fixture\<lparr>friends_tbl := [(''uA'', ''uB'')]\<rparr>)"
proof -
  let ?st1 = "social_fixture\<lparr>friends_tbl := [(''uA'', ''uB'')]\<rparr>"
  have a: "GetByEmail social_fixture ''alice@example.com'' = Inr ''uA''"
    by (simp add: GetByEmail_def social_fixture_def)
  have b: "GetByEmail social_fixture ''bob@example.com'' = Inr ''uB''"
    "GetByEmail ?st1 ''bob@example.com'' = Inr ''uB''"
    by (simp_all add: GetByEmail_def social_fixture_def)
  have p: "pool_error social_fixture = None" "pool_error ?st1 = None"
    "friends_tbl social_fixture = []" "friends_tbl ?st1 = [(''uA'', ''uB'')]"
    by (simp_all add: social_fixture_def)
  from add_friend_by_email_behaviour[of social_fixture "''alice@example.com''" "''uA''"] a
  have x: "AddFriendByEmail social_fixture ''uA'' ''alice@example.com'' =
     (Some (CannotAddSelf ''add as a friend''), social_fixture)" by blast
  from add_friend_by_email_behaviour[of social_fixture "''bob@example.com''" "''uA''" "''uB''"] b p
  have y: "AddFriendByEmail social_fixture ''uA'' ''bob@example.com'' = (None, ?st1)" by simp
  from add_friend_by_email_behaviour[of ?st1 "''bob@example.com''" "''uA''" "''uB''"] b p
  have z: "AddFriendByEmail ?st1 ''uA'' ''bob@example.com'' = (None, ?st1)" by simp
  from x y z show ?thesis by blast
qed

lemma reactions_only_GetCommentByID [simp]:
  "GetCommentByID (st\<lparr>comment_reactions_tbl := rs\<rparr>) commentID = GetCommentByID st commentID"
  by (simp add: GetCommentByID_def split: option.splits)

lemma reactions_only_checkAccess [simp]:
  "checkAccess (st\<lparr>comment_reactions_tbl := rs\<rparr>) expenseID uID = checkAccess st expenseID uID"
  by (simp add: checkAccess_def GetByID_def IsMember_def split: option.splits sum.splits)



end
